theory Spec2Isabelle
  imports Main
begin

section \<open>Strings\<close>

text \<open>
  JavaScript strings are modelled as ASCII strings (\<open>char list\<close>). The functions below are
  the \<open>String.prototype\<close> methods and globals that the server calls, restricted to ASCII:
  \<open>toLowerCase\<close>, \<open>toUpperCase\<close>, \<open>trim\<close>, \<open>includes\<close>, \<open>startsWith\<close>, \<open>split(sep)\<close>,
  \<open>Array.prototype.join\<close>, the conversion of a non-negative integer to its decimal string,
  and \<open>parseInt(s, 10)\<close>.
\<close>

definition is_upper :: "char \<Rightarrow> bool" where
  "is_upper c = (65 \<le> (of_char c :: nat) \<and> (of_char c :: nat) \<le> 90)"

definition is_lower :: "char \<Rightarrow> bool" where
  "is_lower c = (97 \<le> (of_char c :: nat) \<and> (of_char c :: nat) \<le> 122)"

definition is_digit :: "char \<Rightarrow> bool" where
  "is_digit c = (48 \<le> (of_char c :: nat) \<and> (of_char c :: nat) \<le> 57)"

definition is_space :: "char \<Rightarrow> bool" where
  "is_space c = ((9 \<le> (of_char c :: nat) \<and> (of_char c :: nat) \<le> 13) \<or> (of_char c :: nat) = 32)"

definition toLowerChar :: "char \<Rightarrow> char" where
  "toLowerChar c = (if is_upper c then char_of ((of_char c :: nat) + 32) else c)"

definition toUpperChar :: "char \<Rightarrow> char" where
  "toUpperChar c = (if is_lower c then char_of ((of_char c :: nat) - 32) else c)"

definition toLowerCase :: "string \<Rightarrow> string" where
  "toLowerCase s = map toLowerChar s"

definition toUpperCase :: "string \<Rightarrow> string" where
  "toUpperCase s = map toUpperChar s"

definition trim :: "string \<Rightarrow> string" where
  "trim s = rev (dropWhile is_space (rev (dropWhile is_space s)))"

fun startsWith :: "string \<Rightarrow> string \<Rightarrow> bool" where
  "startsWith s [] = True"
| "startsWith [] (c # cs) = False"
| "startsWith (x # xs) (c # cs) = (x = c \<and> startsWith xs cs)"

fun str_includes :: "string \<Rightarrow> string \<Rightarrow> bool" where
  "str_includes [] n = (n = [])"
| "str_includes (x # xs) n = (startsWith (x # xs) n \<or> str_includes xs n)"

text \<open>\<open>s.split(d)\<close> for a one-character separator: never empty, keeps empty pieces.\<close>

fun split_on :: "char \<Rightarrow> string \<Rightarrow> string list" where
  "split_on d [] = [[]]"
| "split_on d (c # cs) =
     (if c = d then [] # split_on d cs
      else (case split_on d cs of
              [] \<Rightarrow> [[c]]
            | x # xs \<Rightarrow> (c # x) # xs))"

fun join_with :: "string \<Rightarrow> string list \<Rightarrow> string" where
  "join_with sep [] = []"
| "join_with sep [x] = x"
| "join_with sep (x # y # ys) = x @ sep @ join_with sep (y # ys)"

function nat_to_string :: "nat \<Rightarrow> string" where
  "nat_to_string n =
     (if n < 10 then [char_of (48 + n)]
      else nat_to_string (n div 10) @ [char_of (48 + n mod 10)])"
  by pat_completeness auto
termination
  by (relation "measure id") auto

definition digit_value :: "char \<Rightarrow> int" where
  "digit_value c = int (of_char c) - 48"

fun digits_value :: "int \<Rightarrow> string \<Rightarrow> int" where
  "digits_value acc [] = acc"
| "digits_value acc (c # cs) = digits_value (10 * acc + digit_value c) cs"

text \<open>
  The numbers of the source are doubles. The ones it computes with are integers: every
  integer of magnitude at most \<open>2^53\<close> is a double and is \<open>Num\<close> of itself; a result beyond
  that magnitude is a rounded double (or an infinity), which is \<open>Inexact\<close> here: the model
  does not say which one. \<open>NaN\<close> is \<open>NaN\<close>.
\<close>

datatype js_number = NaN | Num int | Inexact

definition to_double :: "int \<Rightarrow> js_number" where
  "to_double n = (if \<bar>n\<bar> \<le> 2 ^ 53 then Num n else Inexact)"

fun js_times :: "js_number \<Rightarrow> int \<Rightarrow> js_number" where
  "js_times NaN k = NaN"
| "js_times (Num n) k = to_double (n * k)"
| "js_times Inexact k = Inexact"

text \<open>
  \<open>parseInt(s, 10)\<close>: leading white space is skipped, one sign is read, then the longest
  run of decimal digits; no digit gives \<open>NaN\<close>, and the value of the digits is converted to
  a double.
\<close>

definition parseInt :: "string \<Rightarrow> js_number" where
  "parseInt s =
     (let t = dropWhile is_space s;
          sign = (case t of [] \<Rightarrow> 1 | c # _ \<Rightarrow> if c = CHR ''-'' then - 1 else (1::int));
          u = (case t of [] \<Rightarrow> [] | c # r \<Rightarrow> if c = CHR ''-'' \<or> c = CHR ''+'' then r else t);
          z = takeWhile is_digit u
      in if z = [] then NaN else to_double (sign * digits_value 0 z))"

text \<open>JavaScript truthiness of an optional string, and \<open>a || d\<close> on one.\<close>

fun truthy :: "string option \<Rightarrow> bool" where
  "truthy None = False"
| "truthy (Some s) = (s \<noteq> [])"

fun or_default :: "string option \<Rightarrow> string \<Rightarrow> string" where
  "or_default None d = d"
| "or_default (Some s) d = (if s = [] then d else s)"

section \<open>Paths\<close>

text \<open>
  Node's \<open>path\<close> module on a POSIX host: \<open>path.normalize\<close>, \<open>path.join\<close>, \<open>path.extname\<close>
  and \<open>path.dirname\<close>.
\<close>

fun norm_segs :: "bool \<Rightarrow> string list \<Rightarrow> string list \<Rightarrow> string list" where
  "norm_segs allowAboveRoot [] st = rev st"
| "norm_segs allowAboveRoot (s # ss) st =
     (if s = [] \<or> s = ''.'' then norm_segs allowAboveRoot ss st
      else if s = ''..'' then
        (case st of
           [] \<Rightarrow> norm_segs allowAboveRoot ss (if allowAboveRoot then [''..''] else [])
         | t # ts \<Rightarrow>
             if t = ''..'' then norm_segs allowAboveRoot ss (if allowAboveRoot then ''..'' # st else st)
             else norm_segs allowAboveRoot ss ts)
      else norm_segs allowAboveRoot ss (s # st))"

definition path_normalize :: "string \<Rightarrow> string" where
  "path_normalize p =
     (if p = [] then ''.''
      else
        let isAbsolute = (hd p = CHR ''/'');
            trailingSeparator = (last p = CHR ''/'');
            res = join_with ''/'' (norm_segs (\<not> isAbsolute) (split_on CHR ''/'' p) [])
        in if res = [] then (if isAbsolute then ''/'' else if trailingSeparator then ''./'' else ''.'')
           else (if isAbsolute then ''/'' else []) @ res @ (if trailingSeparator then ''/'' else []))"

definition path_join :: "string list \<Rightarrow> string" where
  "path_join args =
     (let parts = filter (\<lambda>a. a \<noteq> []) args
      in if parts = [] then ''.'' else path_normalize (join_with ''/'' parts))"

text \<open>
  \<open>path.extname\<close>: trailing separators are ignored, the extension runs from the last dot
  of the last path component to the end of that component; a component without a dot, one
  whose only dot is its first character, and the component \<open>..\<close> have no extension.
\<close>

definition last_component :: "string \<Rightarrow> string" where
  "last_component p = rev (takeWhile (\<lambda>c. c \<noteq> CHR ''/'') (dropWhile (\<lambda>c. c = CHR ''/'') (rev p)))"

definition path_extname :: "string \<Rightarrow> string" where
  "path_extname p =
     (let seg = last_component p;
          after = takeWhile (\<lambda>c. c \<noteq> CHR ''.'') (rev seg)
      in if CHR ''.'' \<notin> set seg then []
         else if length after + 1 = length seg then []
         else if seg = ''..'' then []
         else CHR ''.'' # rev after)"

definition path_dirname :: "string \<Rightarrow> string" where
  "path_dirname p =
     (case p of
        [] \<Rightarrow> ''.''
      | c # cs \<Rightarrow>
          let rest = dropWhile (\<lambda>x. x \<noteq> CHR ''/'') (dropWhile (\<lambda>x. x = CHR ''/'') (rev cs))
          in if rest = [] then (if c = CHR ''/'' then ''/'' else ''.'')
             else if c = CHR ''/'' \<and> length rest = 1 then ''//''
             else c # rev (tl rest))"

section \<open>Errors, responses and effects\<close>

datatype EverArtErrorType =
    API_ERROR
  | AUTHENTICATION_ERROR
  | NETWORK_ERROR
  | VALIDATION_ERROR
  | STORAGE_ERROR
  | FORMAT_ERROR
  | UNKNOWN_ERROR

record EverArtError =
  etype :: EverArtErrorType
  message :: string

text \<open>
  A thrown JavaScript value is an \<open>Error\<close> instance with its message, or some other value;
  \<open>error_message\<close> is \<open>(error as Error).message\<close> put into a template string.
\<close>

datatype thrown = Error string | NonError

fun error_message :: "thrown \<Rightarrow> string" where
  "error_message (Error m) = m"
| "error_message NonError = ''undefined''"

text \<open>
  What a tool call returns. \<open>ErrorResponse e\<close> is \<open>errorResponse(e)\<close>; the two successes
  carry the data that the source renders into the texts of the response: for
  \<open>generate_image\<close> the model's display name, the prompt, the upper-cased format, the file
  path and the web relative path; for \<open>view_image\<close> the file name and the file path.
\<close>

datatype tool_result =
    ErrorResponse EverArtError
  | ImageGenerated string string string string "string option"
  | ImageViewed string string

fun is_failure :: "tool_result \<Rightarrow> bool" where
  "is_failure (ErrorResponse e) = True"
| "is_failure (ImageGenerated m p f path rel) = False"
| "is_failure (ImageViewed n path) = False"

fun failure_type :: "tool_result \<Rightarrow> EverArtErrorType option" where
  "failure_type (ErrorResponse e) = Some (etype e)"
| "failure_type (ImageGenerated m p f path rel) = None"
| "failure_type (ImageViewed n path) = None"

text \<open>
  The effects of a request, in the order they happen: the remote calls (create a
  generation with model, prompt, image count and optional variant; poll a generation;
  fetch the image URL), the waits (the delay in milliseconds handed to \<open>setTimeout\<close>),
  the file system calls (\<open>WriteFile\<close> is a call that writes the file: \<open>fs.writeFile\<close> or the
  image library's \<open>toFile\<close>), the viewer, and \<open>console.warn\<close>.
\<close>

datatype event =
    CreateGeneration string string int "string option"
  | PollGeneration string
  | FetchUrl string
  | Sleep js_number
  | Mkdir string
  | WriteFile string
  | OpenViewer string
  | ReadFile string
  | Warn string

record world =
  files :: "string \<Rightarrow> string option"
  trace :: "event list"

definition emit :: "event \<Rightarrow> world \<Rightarrow> world" where
  "emit e w = w\<lparr>trace := trace w @ [e]\<rparr>"

fun is_create :: "event \<Rightarrow> bool" where
  "is_create (CreateGeneration m p n v) = True"
| "is_create e = False"

fun is_fetch :: "event \<Rightarrow> bool" where
  "is_fetch (FetchUrl u) = True"
| "is_fetch e = False"

fun is_network :: "event \<Rightarrow> bool" where
  "is_network (CreateGeneration m p n v) = True"
| "is_network (PollGeneration g) = True"
| "is_network (FetchUrl u) = True"
| "is_network e = False"

fun is_write :: "event \<Rightarrow> bool" where
  "is_write (WriteFile p) = True"
| "is_write e = False"

definition attempts :: "(event \<Rightarrow> bool) \<Rightarrow> world \<Rightarrow> nat" where
  "attempts P w = length (filter P (trace w))"

text \<open>An HTTP response of \<open>node-fetch\<close>; \<open>response.ok\<close> is a status in 200..299.\<close>

record response =
  status :: nat
  statusText :: string
  retry_after :: "string option"
  body :: "thrown + string"

definition response_ok :: "response \<Rightarrow> bool" where
  "response_ok r = (200 \<le> status r \<and> status r \<le> 299)"

datatype readdir_outcome = Listing "string list" | ENOENT | ReaddirError thrown

text \<open>
  The outcome of the image library's \<open>image.<codec>({ quality: 90 }).toFile(filepath)\<close>, one
  call that decodes, re-encodes and writes: it succeeds with the encoded image at the file
  path, or it throws, and then the file path is as before the call or holds what the call
  gives (\<open>None\<close>: no file). The source does not determine which; the environment does.
\<close>

datatype leftover = Untouched | Leaves "string option"

datatype toFile_outcome = ToFileOk string | ToFileFailed thrown leftover

text \<open>
  The environment of a request: the directory of the module, the clock, the outcome of
  each remote call (by attempt number), of each file system call and of the viewer, the
  SVG optimizer, the image library's \<open>toFile\<close> (by codec, content and file path), and the
  fault of the device under \<open>fs.writeFile\<close> (\<open>Some (k, e)\<close>: the write stops with \<open>e\<close> after
  \<open>k\<close> bytes).
\<close>

record env =
  module_dirname :: string
  now_iso :: string
  create_result :: "nat \<Rightarrow> thrown + string list"
  poll_result :: "string \<Rightarrow> thrown + string option"
  fetch_result :: "nat \<Rightarrow> thrown + response"
  mkdir_error :: "string \<Rightarrow> thrown option"
  svgo_optimize :: "string \<Rightarrow> thrown + string"
  sharp_toFile :: "string \<Rightarrow> string \<Rightarrow> string \<Rightarrow> toFile_outcome"
  write_fault :: "(nat \<times> thrown) option"
  open_error :: "string \<Rightarrow> thrown option"
  readFile_error :: "string \<Rightarrow> thrown option"
  access_ok :: "string \<Rightarrow> bool"
  readdir_result :: readdir_outcome

definition MAX_RETRIES :: nat where
  "MAX_RETRIES = 3"

definition INITIAL_RETRY_DELAY :: int where
  "INITIAL_RETRY_DELAY = 1000"

definition STORAGE_DIR :: "env \<Rightarrow> string" where
  "STORAGE_DIR e = path_join [module_dirname e, ''..'', ''images'']"

section \<open>Validation\<close>

definition validateModelFormatCompatibility :: "string \<Rightarrow> string \<Rightarrow> bool" where
  "validateModelFormatCompatibility model format =
     (if toLowerCase format = ''svg'' \<and> model \<noteq> ''8000'' then False else True)"

definition supportedFormats :: "string list" where
  "supportedFormats = [''svg'', ''png'', ''jpg'', ''jpeg'', ''webp'']"

definition validModels :: "string list" where
  "validModels = [''5000'', ''6000'', ''7000'', ''8000'', ''9000'']"

definition incompatible_message :: "string \<Rightarrow> string \<Rightarrow> string" where
  "incompatible_message format model =
     ''Format '' @ [CHR 0x27] @ format @ [CHR 0x27] @ '' is not compatible with model '' @
     [CHR 0x27] @ model @ [CHR 0x27] @
     ''. SVG format is only available with Recraft-Vector (8000) model.''"

record gen_args =
  arg_prompt :: "string option"
  arg_model :: "string option"
  arg_format :: "string option"
  arg_output_path :: "string option"
  arg_web_project_path :: "string option"
  arg_project_type :: "string option"
  arg_asset_path :: "string option"
  arg_image_count :: "int option"

text \<open>
  The checks at the head of the \<open>generate_image\<close> case, in the source's order. \<open>Inr\<close> carries
  \<open>prompt\<close>, \<open>modelInput\<close>, \<open>format\<close> and \<open>image_count\<close> as the rest of the case uses them.
\<close>

text \<open>
  The model id that the case works with: \<open>args.model || "5000"\<close>, cut at the first colon
  when it has one.
\<close>

definition requested_model :: "gen_args \<Rightarrow> string" where
  "requested_model a =
     (let modelInput = or_default (arg_model a) ''5000''
      in if CHR '':'' \<in> set modelInput then hd (split_on CHR '':'' modelInput) else modelInput)"

definition validate_request :: "gen_args \<Rightarrow> EverArtError + (string \<times> string \<times> string \<times> int)" where
  "validate_request a =
     (if \<not> truthy (arg_prompt a) \<or> trim (or_default (arg_prompt a) []) = [] then
        Inl \<lparr>etype = VALIDATION_ERROR,
             message = ''Prompt is required and must be a non-empty string.''\<rparr>
      else
        let p = or_default (arg_prompt a) [];
            count = (case arg_image_count a of None \<Rightarrow> 1 | Some n \<Rightarrow> if n = 0 then 1 else n)
        in if count < 1 \<or> count > 10 then
             Inl \<lparr>etype = VALIDATION_ERROR, message = ''image_count must be between 1 and 10''\<rparr>
           else
             let modelInput = requested_model a
             in if modelInput \<notin> set validModels then
                  Inl \<lparr>etype = VALIDATION_ERROR,
                       message = ''Invalid model ID: '' @ modelInput @ ''. Valid models are: '' @
                                 join_with '', '' validModels\<rparr>
                else
                  let fmt = or_default (arg_format a) (if modelInput = ''8000'' then ''svg'' else ''png'')
                  in if toLowerCase fmt \<notin> set supportedFormats then
                       Inl \<lparr>etype = VALIDATION_ERROR,
                            message = ''Unsupported format: '' @ fmt @ ''. Supported formats are: '' @
                                      join_with '', '' supportedFormats\<rparr>
                     else if \<not> validateModelFormatCompatibility modelInput fmt then
                       Inl \<lparr>etype = VALIDATION_ERROR, message = incompatible_message fmt modelInput\<rparr>
                     else Inr (p, modelInput, fmt, count))"

section \<open>The two retry loops\<close>

text \<open>
  The submission loop of \<open>generate_image\<close>, from \<open>retryCount\<close> on, with the attempt budget
  \<open>M\<close> (the source's \<open>MAX_RETRIES\<close>). \<open>Inl e\<close>: the loop threw \<open>e\<close>; \<open>Inr g\<close>: the loop ended
  with the variable \<open>generation\<close> holding \<open>g\<close> (\<open>None\<close> for \<open>undefined\<close>).
\<close>

function create_loop ::
  "env \<Rightarrow> nat \<Rightarrow> string \<Rightarrow> string \<Rightarrow> int \<Rightarrow> nat \<Rightarrow> world \<Rightarrow> (thrown + string list option) \<times> world" where
  "create_loop e M modelInput p count retryCount w =
     (if retryCount < M then
        let w1 = emit (CreateGeneration modelInput p count
                         (if modelInput = ''8000'' then Some ''vector'' else None)) w
        in case create_result e retryCount of
             Inr generation \<Rightarrow> (Inr (Some generation), w1)
           | Inl err \<Rightarrow>
               if int retryCount \<ge> int M - 1 then (Inl err, w1)
               else create_loop e M modelInput p count (Suc retryCount)
                      (emit (Sleep (to_double (INITIAL_RETRY_DELAY * 2 ^ retryCount))) w1)
      else (Inr None, w))"
  by pat_completeness auto
termination
  by (relation "measure (\<lambda>(e, M, modelInput, p, count, retryCount, w). M - retryCount)") auto

text \<open>
  The fetch loop of \<open>saveImage\<close>, from \<open>retryCount\<close> on with the variable \<open>response\<close> as
  given. \<open>Inl e\<close>: the loop threw \<open>e\<close>; \<open>Inr r\<close>: the loop ended with \<open>response\<close> holding \<open>r\<close>.
\<close>

definition retry_after_delay :: "response \<Rightarrow> js_number" where
  "retry_after_delay r = js_times (parseInt (or_default (retry_after r) ''5'')) 1000"

definition fetch_failed_message :: "response \<Rightarrow> string" where
  "fetch_failed_message r =
     ''Failed to fetch image: '' @ statusText r @ '' ('' @ nat_to_string (status r) @ '')''"

function fetch_loop ::
  "env \<Rightarrow> nat \<Rightarrow> string \<Rightarrow> nat \<Rightarrow> response option \<Rightarrow> world \<Rightarrow> (thrown + response option) \<times> world" where
  "fetch_loop e M imageUrl retryCount resp w =
     (if retryCount < M then
        let w1 = emit (FetchUrl imageUrl) w
        in case fetch_result e retryCount of
             Inl err \<Rightarrow>
               if int retryCount \<ge> int M - 1 then (Inl err, w1)
               else fetch_loop e M imageUrl (Suc retryCount) resp
                      (emit (Sleep (to_double (INITIAL_RETRY_DELAY * 2 ^ retryCount))) w1)
           | Inr r \<Rightarrow>
               if response_ok r then (Inr (Some r), w1)
               else if status r = 429 then
                 fetch_loop e M imageUrl (Suc retryCount) (Some r)
                   (emit (Sleep (retry_after_delay r)) w1)
               else if int retryCount \<ge> int M - 1 then
                 (Inl (Error (fetch_failed_message r)), w1)
               else fetch_loop e M imageUrl (Suc retryCount) (Some r)
                      (emit (Sleep (to_double (INITIAL_RETRY_DELAY * 2 ^ retryCount))) w1)
      else (Inr resp, w))"
  by pat_completeness auto
termination
  by (relation "measure (\<lambda>(e, M, imageUrl, retryCount, resp, w). M - retryCount)") auto

definition exhausted_fetch_message :: "nat \<Rightarrow> string" where
  "exhausted_fetch_message M = ''Failed to fetch image after '' @ nat_to_string M @ '' attempts''"

text \<open>The loop and the check of \<open>response\<close> after it.\<close>

definition fetch_with_retry :: "env \<Rightarrow> nat \<Rightarrow> string \<Rightarrow> world \<Rightarrow> (thrown + response) \<times> world" where
  "fetch_with_retry e M imageUrl w =
     (case fetch_loop e M imageUrl 0 None w of
        (Inl err, w') \<Rightarrow> (Inl err, w')
      | (Inr None, w') \<Rightarrow> (Inl (Error (exhausted_fetch_message M)), w')
      | (Inr (Some r), w') \<Rightarrow>
          if response_ok r then (Inr r, w')
          else (Inl (Error (exhausted_fetch_message M)), w'))"

definition exhausted_create_message :: string where
  "exhausted_create_message = ''Failed to create generation after multiple attempts''"

definition create_with_retry ::
  "env \<Rightarrow> nat \<Rightarrow> string \<Rightarrow> string \<Rightarrow> int \<Rightarrow> world \<Rightarrow> (thrown + string list) \<times> world" where
  "create_with_retry e M modelInput p count w =
     (case create_loop e M modelInput p count 0 w of
        (Inl err, w') \<Rightarrow> (Inl err, w')
      | (Inr None, w') \<Rightarrow> (Inl (Error exhausted_create_message), w')
      | (Inr (Some generation), w') \<Rightarrow> (Inr generation, w'))"

section \<open>Saving an image\<close>

definition processWebProjectPath ::
  "env \<Rightarrow> string option \<Rightarrow> string option \<Rightarrow> string option \<Rightarrow> world \<Rightarrow> string option \<times> world" where
  "processWebProjectPath e basePath projectType assetPath w =
     (if \<not> truthy basePath then (None, w)
      else
        let base = or_default basePath [];
            fullPath =
              (if truthy projectType then
                 (if toLowerCase (or_default projectType []) \<in>
                       set [''react'', ''vue'', ''angular'', ''next'', ''nuxt'']
                  then path_join [base, ''public'', or_default assetPath ''images'']
                  else path_join [base, or_default assetPath ''assets/images''])
               else if truthy assetPath then path_join [base, or_default assetPath []]
               else base);
            w1 = emit (Mkdir fullPath) w
        in case mkdir_error e fullPath of
             None \<Rightarrow> (Some fullPath, w1)
           | Some err \<Rightarrow> (None, w1))"

definition is_alnum :: "char \<Rightarrow> bool" where
  "is_alnum c = (is_lower c \<or> is_upper c \<or> is_digit c)"

definition sanitize_prompt :: "string \<Rightarrow> string" where
  "sanitize_prompt p = toLowerCase (map (\<lambda>c. if is_alnum c then c else CHR ''_'') (take 20 p))"

definition timestamp_of :: "string \<Rightarrow> string" where
  "timestamp_of isoString = map (\<lambda>c. if c = CHR '':'' \<or> c = CHR ''.'' then CHR ''-'' else c) isoString"

text \<open>
  The branch of \<open>saveImage\<close> for an explicit \<open>outputPath\<close>: the file path and the warning, if
  one is printed.
\<close>

definition extension_warning :: "string \<Rightarrow> string \<Rightarrow> string" where
  "extension_warning ext format =
     ''Warning: File extension '' @ ext @ '' doesn'' @ [CHR 0x27] @ ''t match specified format '' @ format"

definition explicit_filepath :: "string \<Rightarrow> string \<Rightarrow> string \<times> string option" where
  "explicit_filepath outputPath format =
     (let ext = path_extname outputPath
      in if ext = [] then (outputPath @ ''.'' @ format, None)
         else if toLowerCase (drop 1 ext) \<noteq> toLowerCase format then
           (take (length outputPath - length ext) outputPath @ ''.'' @ format,
            Some (extension_warning ext format))
         else (outputPath, None))"

definition resolve_filepath ::
  "env \<Rightarrow> string \<Rightarrow> string \<Rightarrow> string \<Rightarrow> string option \<Rightarrow> string option \<Rightarrow> world \<Rightarrow> (thrown + string) \<times> world" where
  "resolve_filepath e p model format outputPath projectBasePath w =
     (let timestamp = timestamp_of (now_iso e);
          sanitizedPrompt = sanitize_prompt p;
          filename = sanitizedPrompt @ ''_'' @ model @ ''.'' @ format
      in if truthy outputPath then
           (case explicit_filepath (or_default outputPath []) format of
              (filepath, warning) \<Rightarrow>
                let w1 = (case warning of None \<Rightarrow> w | Some msg \<Rightarrow> emit (Warn msg) w);
                    w2 = emit (Mkdir (path_dirname filepath)) w1
                in (case mkdir_error e (path_dirname filepath) of
                      None \<Rightarrow> (Inr filepath, w2)
                    | Some err \<Rightarrow> (Inl err, w2)))
         else if truthy projectBasePath then
           (Inr (path_join [or_default projectBasePath [], filename]), w)
         else
           (Inr (path_join [STORAGE_DIR e,
                            timestamp @ ''_'' @ model @ ''_'' @ sanitizedPrompt @ ''.'' @ format]), w))"

text \<open>
  \<open>fs.writeFile(filepath, data)\<close>: the file is created or truncated and the data are written
  to it; under a fault the write stops and throws, and the bytes written so far stay.
\<close>

definition write_destination :: "env \<Rightarrow> string \<Rightarrow> string \<Rightarrow> world \<Rightarrow> thrown option \<times> world" where
  "write_destination e filepath content w =
     (let w1 = emit (WriteFile filepath) w
      in case write_fault e of
           None \<Rightarrow> (None, w1\<lparr>files := (files w1)(filepath \<mapsto> content)\<rparr>)
         | Some (k, err) \<Rightarrow> (Some err, w1\<lparr>files := (files w1)(filepath \<mapsto> take k content)\<rparr>))"

text \<open>The image library's \<open>toFile\<close> on the file path, with the outcome the environment gives.\<close>

fun after_failure :: "leftover \<Rightarrow> string \<Rightarrow> (string \<Rightarrow> string option) \<Rightarrow> (string \<Rightarrow> string option)" where
  "after_failure Untouched filepath fs = fs"
| "after_failure (Leaves c) filepath fs = fs(filepath := c)"

definition toFile :: "env \<Rightarrow> string \<Rightarrow> string \<Rightarrow> string \<Rightarrow> world \<Rightarrow> thrown option \<times> world" where
  "toFile e codec content filepath w =
     (let w1 = emit (WriteFile filepath) w
      in case sharp_toFile e codec content filepath of
           ToFileOk encoded \<Rightarrow> (None, w1\<lparr>files := (files w1)(filepath \<mapsto> encoded)\<rparr>)
         | ToFileFailed err left \<Rightarrow>
             (Some err, w1\<lparr>files := after_failure left filepath (files w1)\<rparr>))"

definition materialize :: "env \<Rightarrow> string \<Rightarrow> string \<Rightarrow> string \<Rightarrow> world \<Rightarrow> thrown option \<times> world" where
  "materialize e format content filepath w =
     (if format = ''svg'' then
        (case svgo_optimize e content of
           Inl err \<Rightarrow> (Some err, w)
         | Inr optimized \<Rightarrow> write_destination e filepath optimized w)
      else
        (case (if format = ''png'' then toFile e ''png'' content filepath w
               else if format = ''jpg'' \<or> format = ''jpeg'' then toFile e ''jpeg'' content filepath w
               else if format = ''webp'' then toFile e ''webp'' content filepath w
               else (Some (Error (''Unsupported format: '' @ format)), w)) of
           (None, w') \<Rightarrow> (None, w')
         | (Some err, w') \<Rightarrow> (Some (Error (''Image processing failed: '' @ error_message err)), w')))"

text \<open>The body of the \<open>try\<close> block of \<open>saveImage\<close>, with the format already lower-cased.\<close>

definition saveImage_body ::
  "env \<Rightarrow> string \<Rightarrow> string \<Rightarrow> string \<Rightarrow> string \<Rightarrow> string option \<Rightarrow> string option \<Rightarrow> string option \<Rightarrow>
   string option \<Rightarrow> world \<Rightarrow> (thrown + string) \<times> world" where
  "saveImage_body e imageUrl p model format outputPath webProjectPath projectType assetPath w =
     (case (if truthy webProjectPath
            then processWebProjectPath e webProjectPath projectType assetPath w
            else (None, w)) of
        (projectBasePath, w1) \<Rightarrow>
          (case resolve_filepath e p model format outputPath projectBasePath w1 of
             (Inl err, w2) \<Rightarrow> (Inl err, w2)
           | (Inr filepath, w2) \<Rightarrow>
               (case fetch_with_retry e MAX_RETRIES imageUrl w2 of
                  (Inl err, w3) \<Rightarrow> (Inl err, w3)
                | (Inr r, w3) \<Rightarrow>
                    (case body r of
                       Inl err \<Rightarrow> (Inl err, w3)
                     | Inr content \<Rightarrow>
                         (case materialize e format content filepath w3 of
                            (Some err, w4) \<Rightarrow> (Inl err, w4)
                          | (None, w4) \<Rightarrow> (Inr filepath, w4))))))"

definition unsupported_message :: "string \<Rightarrow> string" where
  "unsupported_message format =
     ''Unsupported format: '' @ format @ ''. Supported formats are: '' @ join_with '', '' supportedFormats"

definition saveImage ::
  "env \<Rightarrow> string \<Rightarrow> string \<Rightarrow> string \<Rightarrow> string \<Rightarrow> string option \<Rightarrow> string option \<Rightarrow> string option \<Rightarrow>
   string option \<Rightarrow> world \<Rightarrow> (thrown + string) \<times> world" where
  "saveImage e imageUrl p model format0 outputPath webProjectPath projectType assetPath w =
     (let format = toLowerCase format0
      in if format \<notin> set supportedFormats then (Inl (Error (unsupported_message format)), w)
         else if \<not> validateModelFormatCompatibility model format then
           (Inl (Error (incompatible_message format model)), w)
         else
           (case saveImage_body e imageUrl p model format outputPath webProjectPath projectType assetPath w of
              (Inl err, w') \<Rightarrow> (Inl (Error (''Failed to save image: '' @ error_message err)), w')
            | (Inr filepath, w') \<Rightarrow> (Inr filepath, w')))"

text \<open>
  The steps of the \<open>try\<close> block of \<open>saveImage\<close> that come before the write: the project path,
  the file path, the fetch and the body of the response. \<open>saveImage_body\<close> is these steps
  followed by the write (lemma \<open>saveImage_body_prepare\<close>).
\<close>

definition saveImage_prepare ::
  "env \<Rightarrow> string \<Rightarrow> string \<Rightarrow> string \<Rightarrow> string \<Rightarrow> string option \<Rightarrow> string option \<Rightarrow> string option \<Rightarrow>
   string option \<Rightarrow> world \<Rightarrow> (thrown + string \<times> string) \<times> world" where
  "saveImage_prepare e imageUrl p model format outputPath webProjectPath projectType assetPath w =
     (case (if truthy webProjectPath
            then processWebProjectPath e webProjectPath projectType assetPath w
            else (None, w)) of
        (projectBasePath, w1) \<Rightarrow>
          (case resolve_filepath e p model format outputPath projectBasePath w1 of
             (Inl err, w2) \<Rightarrow> (Inl err, w2)
           | (Inr filepath, w2) \<Rightarrow>
               (case fetch_with_retry e MAX_RETRIES imageUrl w2 of
                  (Inl err, w3) \<Rightarrow> (Inl err, w3)
                | (Inr r, w3) \<Rightarrow>
                    (case body r of
                       Inl err \<Rightarrow> (Inl err, w3)
                     | Inr content \<Rightarrow> (Inr (filepath, content), w3)))))"

text \<open>
  The codec that \<open>saveImage\<close> selects for a raster format, and the data that a write without
  failure puts at the file path.
\<close>

definition codec_of :: "string \<Rightarrow> string" where
  "codec_of format = (if format = ''jpg'' then ''jpeg'' else format)"

definition written_data :: "env \<Rightarrow> string \<Rightarrow> string \<Rightarrow> string \<Rightarrow> string option" where
  "written_data e format content filepath =
     (if format = ''svg'' then
        (case svgo_optimize e content of
           Inl err \<Rightarrow> None
         | Inr optimized \<Rightarrow> (case write_fault e of None \<Rightarrow> Some optimized | Some fault \<Rightarrow> None))
      else
        (case sharp_toFile e (codec_of format) content filepath of
           ToFileOk encoded \<Rightarrow> Some encoded
         | ToFileFailed err left \<Rightarrow> None))"

section \<open>The tool \<open>generate_image\<close>\<close>

text \<open>
  The handler of tool calls first makes sure that the storage directory exists and answers
  with a \<open>STORAGE_ERROR\<close> when it cannot; the definitions of this section and of the next are
  the cases of its \<open>switch\<close>, which run after that step has succeeded.
\<close>

definition modelNames :: "(string \<times> string) list" where
  "modelNames =
     [(''5000'', ''FLUX1.1 (Standard quality)''),
      (''9000'', ''FLUX1.1-ultra (Ultra high quality)''),
      (''6000'', ''Stable Diffusion 3.5''),
      (''7000'', ''Recraft-Real (Photorealistic)''),
      (''8000'', ''Recraft-Vector (Vector art)'')]"

definition model_display_name :: "string \<Rightarrow> string" where
  "model_display_name modelInput = or_default (map_of modelNames modelInput) modelInput"

definition web_relative_path :: "string option \<Rightarrow> string \<Rightarrow> string option" where
  "web_relative_path web_project_path filepath =
     (if truthy web_project_path \<and> startsWith filepath (or_default web_project_path []) then
        let rel = drop (length (or_default web_project_path [])) filepath
        in Some (if startsWith rel ''/'' then rel else ''/'' @ rel)
      else None)"

text \<open>The viewer is opened inside its own \<open>try\<close>: a failure is a warning.\<close>

definition open_after_save :: "env \<Rightarrow> string \<Rightarrow> world \<Rightarrow> world" where
  "open_after_save e filepath w =
     (let w1 = emit (OpenViewer filepath) w
      in case open_error e filepath of
           None \<Rightarrow> w1
         | Some err \<Rightarrow> emit (Warn ''Could not open the image in default viewer:'') w1)"

definition read_for_inline_display :: "env \<Rightarrow> string \<Rightarrow> world \<Rightarrow> world" where
  "read_for_inline_display e filepath w =
     (let w1 = emit (ReadFile filepath) w
      in case readFile_error e filepath of
           None \<Rightarrow> w1
         | Some err \<Rightarrow> emit (Warn ''Unable to read image for inline display:'') w1)"

text \<open>
  The \<open>try\<close> block of the \<open>generate_image\<close> case after the checks: \<open>Inl\<close> is the value it
  throws, \<open>Inr\<close> the response it returns.
\<close>

definition run_generation ::
  "env \<Rightarrow> gen_args \<Rightarrow> string \<Rightarrow> string \<Rightarrow> string \<Rightarrow> int \<Rightarrow> world \<Rightarrow> (thrown + tool_result) \<times> world" where
  "run_generation e a p modelInput fmt count w =
     (case create_with_retry e MAX_RETRIES modelInput p count w of
        (Inl err, w1) \<Rightarrow> (Inl err, w1)
      | (Inr generation, w1) \<Rightarrow>
          (case generation of
             [] \<Rightarrow> (Inl (Error (''Cannot read properties of undefined (reading '' @ [CHR 0x27] @
                                  ''id'' @ [CHR 0x27] @ '')'')), w1)
           | g # gs \<Rightarrow>
               let w2 = emit (PollGeneration g) w1
               in (case poll_result e g of
                     Inl err \<Rightarrow> (Inl err, w2)
                   | Inr imgUrl \<Rightarrow>
                       if \<not> truthy imgUrl then
                         (Inl (Error ''No image URL in the completed generation''), w2)
                       else
                         (case saveImage e (or_default imgUrl []) p modelInput fmt (arg_output_path a)
                                 (arg_web_project_path a) (arg_project_type a) (arg_asset_path a) w2 of
                            (Inl err, w3) \<Rightarrow> (Inl err, w3)
                          | (Inr filepath, w3) \<Rightarrow>
                              (Inr (ImageGenerated (model_display_name modelInput) p
                                      (toUpperCase fmt) filepath
                                      (web_relative_path (arg_web_project_path a) filepath)),
                               read_for_inline_display e filepath
                                 (open_after_save e filepath w3))))))"

text \<open>The \<open>catch\<close> of the \<open>generate_image\<close> case: the error is classified by its message.\<close>

fun categorize_error :: "thrown \<Rightarrow> EverArtError" where
  "categorize_error (Error m) =
     (if str_includes m ''SVG format'' then \<lparr>etype = FORMAT_ERROR, message = m\<rparr>
      else if str_includes m ''Failed to fetch image'' then
        \<lparr>etype = NETWORK_ERROR,
         message = ''Failed to download the generated image. Please check your internet connection and try again.''\<rparr>
      else if str_includes m ''rate limit'' then
        \<lparr>etype = API_ERROR, message = ''EverArt API rate limit reached. Please try again later.''\<rparr>
      else if str_includes m ''unauthorized'' \<or> str_includes m ''authentication'' then
        \<lparr>etype = AUTHENTICATION_ERROR,
         message = ''API authentication failed. Please check your EverArt API key.''\<rparr>
      else \<lparr>etype = UNKNOWN_ERROR, message = m\<rparr>)"
| "categorize_error NonError = \<lparr>etype = UNKNOWN_ERROR, message = ''Unknown error''\<rparr>"

definition generate_image :: "env \<Rightarrow> gen_args \<Rightarrow> world \<Rightarrow> tool_result \<times> world" where
  "generate_image e a w =
     (case validate_request a of
        Inl err \<Rightarrow> (ErrorResponse err, w)
      | Inr (p, modelInput, fmt, count) \<Rightarrow>
          (case run_generation e a p modelInput fmt count w of
             (Inl err, w') \<Rightarrow> (ErrorResponse (categorize_error err), w')
           | (Inr res, w') \<Rightarrow> (res, w')))"

section \<open>The tool \<open>view_image\<close>\<close>

definition endsWith :: "string \<Rightarrow> string \<Rightarrow> bool" where
  "endsWith s suffix = startsWith (rev s) (rev suffix)"

definition is_image_name :: "string \<Rightarrow> bool" where
  "is_image_name file =
     (let f = toLowerCase file
      in endsWith f ''.svg'' \<or> endsWith f ''.png'' \<or> endsWith f ''.jpg'' \<or> endsWith f ''.jpeg'' \<or>
         endsWith f ''.webp'')"

definition listStoredImages :: "env \<Rightarrow> thrown + string list" where
  "listStoredImages e =
     (case readdir_result e of
        Listing fs \<Rightarrow> Inr (filter is_image_name fs)
      | ENOENT \<Rightarrow> Inr []
      | ReaddirError err \<Rightarrow> Inl err)"

definition newline :: string where
  "newline = [CHR 0x0A]"

definition bullet :: string where
  "bullet = [CHR 0xE2, CHR 0x80, CHR 0xA2, CHR 0x20]"

definition not_found_message :: "string \<Rightarrow> string list \<Rightarrow> string" where
  "not_found_message filename availableFiles =
     ''Image not found: '' @ filename @
     (if availableFiles \<noteq> [] then
        (let suggestions =
               take 3 (filter (\<lambda>f. str_includes (toLowerCase f) (toLowerCase filename) \<or>
                                    str_includes (toLowerCase filename)
                                      (last (split_on CHR ''_'' (toLowerCase f))))
                         availableFiles)
         in (if suggestions \<noteq> [] then
               newline @ newline @ ''Did you mean one of these?'' @ newline @
               join_with newline (map (\<lambda>s. bullet @ s) suggestions)
             else []) @
            newline @ newline @ ''Use '' @ [CHR 0x27] @ ''list_images'' @ [CHR 0x27] @
            '' to see all available images.'')
      else [])"

fun view_error_message :: "thrown \<Rightarrow> string" where
  "view_error_message (Error m) = ''Error viewing image: '' @ m"
| "view_error_message NonError = ''Error viewing image: Unknown error''"

text \<open>
  The \<open>view_image\<close> case. The call of the viewer stands in the outer \<open>try\<close> block, before
  the inner \<open>try\<close> whose body is only a comment.
\<close>

definition view_image :: "env \<Rightarrow> string option \<Rightarrow> world \<Rightarrow> tool_result \<times> world" where
  "view_image e filename_arg w =
     (if \<not> truthy filename_arg then
        (ErrorResponse \<lparr>etype = VALIDATION_ERROR,
                        message = ''filename is required and must be a string''\<rparr>, w)
      else
        let filename = or_default filename_arg [];
            filepath = path_join [STORAGE_DIR e, filename]
        in if \<not> access_ok e filepath then
             (case listStoredImages e of
                Inl err \<Rightarrow>
                  (ErrorResponse \<lparr>etype = UNKNOWN_ERROR, message = view_error_message err\<rparr>, w)
              | Inr availableFiles \<Rightarrow>
                  (ErrorResponse \<lparr>etype = VALIDATION_ERROR,
                                  message = not_found_message filename availableFiles\<rparr>, w))
           else
             let w1 = read_for_inline_display e filepath w;
                 w2 = emit (OpenViewer filepath) w1
             in (case open_error e filepath of
                   Some err \<Rightarrow>
                     (ErrorResponse \<lparr>etype = UNKNOWN_ERROR, message = view_error_message err\<rparr>, w2)
                 | None \<Rightarrow> (ImageViewed filename filepath, w2)))"

section \<open>Concrete requests and environments\<close>

text \<open>An environment in which every call succeeds, and the world before any request.\<close>

definition env_ok :: env where
  "env_ok =
     \<lparr>module_dirname = ''/app/build'', now_iso = ''2025-01-02T03:04:05.678Z'',
      create_result = (\<lambda>i. Inr [''gen-1'']),
      poll_result = (\<lambda>g. Inr (Some ''https://cdn.example/img'')),
      fetch_result = (\<lambda>i. Inr \<lparr>status = 200, statusText = ''OK'', retry_after = None,
                                 body = Inr ''<svg/>''\<rparr>),
      mkdir_error = (\<lambda>p. None), svgo_optimize = Inr,
      sharp_toFile = (\<lambda>codec content filepath. ToFileOk content),
      write_fault = None, open_error = (\<lambda>p. None), readFile_error = (\<lambda>p. None),
      access_ok = (\<lambda>p. True), readdir_result = Listing []\<rparr>"

definition world_empty :: world where
  "world_empty = \<lparr>files = (\<lambda>p. None), trace = []\<rparr>"

definition args_count_zero :: gen_args where
  "args_count_zero =
     \<lparr>arg_prompt = Some ''a cat'', arg_model = None, arg_format = None,
      arg_output_path = None, arg_web_project_path = None, arg_project_type = None,
      arg_asset_path = None, arg_image_count = Some 0\<rparr>"

definition args_svg_flux :: gen_args where
  "args_svg_flux =
     \<lparr>arg_prompt = Some ''A landscape'', arg_model = Some ''5000'', arg_format = Some ''svg'',
      arg_output_path = None, arg_web_project_path = None, arg_project_type = None,
      arg_asset_path = None, arg_image_count = None\<rparr>"

definition args_vector_webp :: gen_args where
  "args_vector_webp =
     \<lparr>arg_prompt = Some ''A minimalist tech logo'', arg_model = Some ''8000'',
      arg_format = Some ''webp'', arg_output_path = None, arg_web_project_path = None,
      arg_project_type = None, arg_asset_path = None, arg_image_count = None\<rparr>"

text \<open>
  An attempt of the fetch loop has failed when \<open>fetch\<close> threw or the response is not ok;
  \<open>last_fetch_error\<close> is what \<open>saveImage\<close>'s loop leaves when the last attempt of the budget
  has failed.
\<close>

definition fetch_attempt_failed :: "thrown + response \<Rightarrow> bool" where
  "fetch_attempt_failed out = (case out of Inl c \<Rightarrow> True | Inr r \<Rightarrow> \<not> response_ok r)"

definition last_fetch_error :: "nat \<Rightarrow> thrown + response \<Rightarrow> thrown" where
  "last_fetch_error M out =
     (case out of
        Inl c \<Rightarrow> c
      | Inr r \<Rightarrow> if status r = 429 then Error (exhausted_fetch_message M)
                else Error (fetch_failed_message r))"

text \<open>
  An environment in which every submission throws and every fetch is answered 429, and one
  in which the third submission and the third fetch succeed.
\<close>

definition env_always_fails :: env where
  "env_always_fails =
     env_ok\<lparr>create_result := (\<lambda>i. Inl (Error (''ECONNRESET on attempt '' @ nat_to_string (Suc i)))),
            fetch_result := (\<lambda>i. Inr \<lparr>status = 429, statusText = ''Too Many Requests'',
                                       retry_after = Some ''2'', body = Inr []\<rparr>)\<rparr>"

definition env_third_time :: env where
  "env_third_time =
     env_ok\<lparr>create_result := (\<lambda>i. if i < 2 then Inl (Error ''ECONNRESET'') else Inr [''gen-1'']),
            fetch_result := (\<lambda>i. if i < 2 then Inl (Error ''ETIMEDOUT'')
                                  else Inr \<lparr>status = 200, statusText = ''OK'', retry_after = None,
                                            body = Inr ''<svg/>''\<rparr>)\<rparr>"

text \<open>
  An environment in which the viewer cannot be started, one in which the completed
  generation has no image URL, and a plain request.
\<close>

definition env_viewer_fails :: env where
  "env_viewer_fails = env_ok\<lparr>open_error := (\<lambda>p. Some (Error ''spawn xdg-open ENOENT''))\<rparr>"

definition env_no_image_url :: env where
  "env_no_image_url = env_ok\<lparr>poll_result := (\<lambda>g. Inr None)\<rparr>"

definition args_cat :: gen_args where
  "args_cat =
     \<lparr>arg_prompt = Some ''a cat'', arg_model = None, arg_format = None,
      arg_output_path = None, arg_web_project_path = None, arg_project_type = None,
      arg_asset_path = None, arg_image_count = None\<rparr>"

text \<open>An environment whose device fails after two bytes of a write.\<close>

definition env_disk_full :: env where
  "env_disk_full = env_ok\<lparr>write_fault := Some (2, Error ''ENOSPC: no space left on device, write'')\<rparr>"

text \<open>An environment in which the image library fails and leaves the file path as it was.\<close>

definition env_encoder_fails :: env where
  "env_encoder_fails =
     env_ok\<lparr>sharp_toFile := (\<lambda>codec content filepath.
                ToFileFailed (Error ''Input buffer contains unsupported image format'') Untouched)\<rparr>"

text \<open>
  The shape of a clock reading: its digits replaced by 0. \<open>toISOString\<close> gives readings of the
  shape \<open>iso_pattern\<close> (for the years 0000 to 9999).
\<close>

definition iso_shape :: "string \<Rightarrow> string" where
  "iso_shape s = map (\<lambda>c. if is_digit c then CHR ''0'' else c) s"

definition iso_pattern :: string where
  "iso_pattern = ''0000-00-00T00:00:00.000Z''"

text \<open>What \<open>path.join\<close> puts before a file name that it appends to a directory.\<close>

definition dir_prefix :: "string \<Rightarrow> string" where
  "dir_prefix dir =
     (let segs = norm_segs (hd dir \<noteq> CHR ''/'') (split_on CHR ''/'' dir) []
      in (if hd dir = CHR ''/'' then ''/'' else []) @
         (if segs = [] then [] else join_with ''/'' segs @ ''/''))"

text \<open>A later request: the clock has advanced and the remote image is another one.\<close>

definition env_later :: env where
  "env_later =
     env_ok\<lparr>now_iso := ''2025-01-02T03:04:09.000Z'',
            fetch_result := (\<lambda>i. Inr \<lparr>status = 200, statusText = ''OK'', retry_after = None,
                                       body = Inr ''<svg>2</svg>''\<rparr>)\<rparr>"

text \<open>
  An environment in which the first two fetches time out and the third is answered 429, and
  a 429 answer whose retry-after header is a date.
\<close>

definition env_rate_limited_last :: env where
  "env_rate_limited_last =
     env_ok\<lparr>fetch_result := (\<lambda>i. if i < 2 then Inl (Error ''ETIMEDOUT'')
                                  else Inr \<lparr>status = 429, statusText = ''Too Many Requests'',
                                            retry_after = Some ''7'', body = Inr []\<rparr>)\<rparr>"

definition response_with_date_hint :: response where
  "response_with_date_hint =
     \<lparr>status = 429, statusText = ''Too Many Requests'',
      retry_after = Some ''Wed, 21 Oct 2015 07:28:00 GMT'', body = Inr []\<rparr>"

section \<open>Properties\<close>

subsection \<open>Lower-casing\<close>

lemma toLowerChar_idem: "toLowerChar (toLowerChar c) = toLowerChar c"
  unfolding toLowerChar_def is_upper_def by (auto simp: of_char_of)

lemma toLowerCase_idem: "toLowerCase (toLowerCase s) = toLowerCase s"
  by (simp add: toLowerCase_def toLowerChar_idem)

lemma lower_svg: "toLowerCase ''svg'' = ''svg''"
  by code_simp

lemma svg_nonempty: "toLowerCase f = ''svg'' \<Longrightarrow> f \<noteq> []"
  by (auto simp: toLowerCase_def)

lemma raster_not_svg:
  "toLowerCase f \<in> set [''png'', ''jpg'', ''jpeg'', ''webp''] \<Longrightarrow> toLowerCase f \<noteq> ''svg''"
  by auto

lemma raster_supported:
  "toLowerCase f \<in> set [''png'', ''jpg'', ''jpeg'', ''webp''] \<Longrightarrow>
   toLowerCase f \<in> set supportedFormats"
  by (auto simp: supportedFormats_def)

lemma raster_nonempty:
  "toLowerCase f \<in> set [''png'', ''jpg'', ''jpeg'', ''webp''] \<Longrightarrow> f \<noteq> []"
  by (auto simp: toLowerCase_def)

subsection \<open>Model and format compatibility\<close>

text \<open>
  C10. \<open>validateModelFormatCompatibility\<close> rejects exactly the pairs whose format is svg (in
  any letter case) and whose model is not 8000. Every raster format (png, jpg, jpeg, webp)
  is accepted with every model, as the format is written and as \<open>saveImage\<close> passes it
  (lower-cased); so a request for model 8000 with a raster format passes the checks of
  \<open>generate_image\<close>, and \<open>saveImage\<close> passes its two checks and runs its body.
\<close>

theorem compat_rejects_only_svg_without_vector_model:
  "(validateModelFormatCompatibility m f \<longleftrightarrow> \<not> (toLowerCase f = ''svg'' \<and> m \<noteq> ''8000'')) \<and>
   (toLowerCase f \<in> set [''png'', ''jpg'', ''jpeg'', ''webp''] \<longrightarrow>
      validateModelFormatCompatibility m f \<and>
      validateModelFormatCompatibility m (toLowerCase f) \<and>
      (\<forall>a. truthy (arg_prompt a) \<and> trim (or_default (arg_prompt a) []) \<noteq> [] \<and>
           arg_image_count a = None \<and> arg_model a = Some ''8000'' \<and> arg_format a = Some f \<longrightarrow>
           validate_request a = Inr (or_default (arg_prompt a) [], ''8000'', f, 1)) \<and>
      saveImage e url p m f op wp pt ap w =
        (case saveImage_body e url p m (toLowerCase f) op wp pt ap w of
           (Inl err, w') \<Rightarrow> (Inl (Error (''Failed to save image: '' @ error_message err)), w')
         | (Inr filepath, w') \<Rightarrow> (Inr filepath, w')))"
  using raster_not_svg[of f] raster_supported[of f] raster_nonempty[of f]
  by (auto simp: validateModelFormatCompatibility_def toLowerCase_idem saveImage_def Let_def
        validate_request_def requested_model_def validModels_def)

theorem compat_rejects_only_svg_without_vector_model_witness:
  "toLowerCase ''webp'' \<in> set [''png'', ''jpg'', ''jpeg'', ''webp''] \<and>
   validateModelFormatCompatibility ''8000'' ''webp'' \<and>
   validate_request args_vector_webp = Inr (''A minimalist tech logo'', ''8000'', ''webp'', 1)"
proof -
  have h: "toLowerCase ''webp'' \<in> set [''png'', ''jpg'', ''jpeg'', ''webp'']"
    by code_simp
  have a: "truthy (arg_prompt args_vector_webp) \<and>
           trim (or_default (arg_prompt args_vector_webp) []) \<noteq> [] \<and>
           arg_image_count args_vector_webp = None \<and>
           arg_model args_vector_webp = Some ''8000'' \<and>
           arg_format args_vector_webp = Some ''webp''"
    by code_simp
  have p: "or_default (arg_prompt args_vector_webp) [] = ''A minimalist tech logo''"
    by code_simp
  note B = mp[OF conjunct2[OF compat_rejects_only_svg_without_vector_model[of "''8000''" "''webp''"]] h]
  note v = conjunct1[OF B]
  note inst = mp[OF spec[OF conjunct1[OF conjunct2[OF conjunct2[OF B]]], of args_vector_webp] a]
  from h v inst p show ?thesis by simp
qed

lemma generate_image_rejects_svg:
  assumes "toLowerCase f = ''svg''" "arg_format a = Some f" "requested_model a \<noteq> ''8000''"
  shows "\<exists>err. generate_image e a w = (ErrorResponse err, w) \<and> etype err = VALIDATION_ERROR"
  using assms svg_nonempty[OF assms(1)]
  by (auto simp: generate_image_def validate_request_def Let_def
        validateModelFormatCompatibility_def)

lemma saveImage_rejects_svg:
  assumes "toLowerCase f = ''svg''" "m \<noteq> ''8000''"
  shows "saveImage e url p m f op wp pt ap w = (Inl (Error (incompatible_message ''svg'' m)), w)"
  using assms
  by (simp add: saveImage_def Let_def validateModelFormatCompatibility_def supportedFormats_def
        lower_svg)

text \<open>
  C1. A request whose format is svg (in any letter case) and whose model id is not 8000 is
  answered by \<open>generate_image\<close> with a validation error and the world unchanged, so before
  any remote call; and \<open>saveImage\<close>, called with such a format and model, makes the same
  check again and throws before any effect.
\<close>

theorem svg_needs_vector_model:
  assumes "toLowerCase f = ''svg''"
  shows "(arg_format a = Some f \<and> requested_model a \<noteq> ''8000'' \<longrightarrow>
           (\<exists>err. generate_image e a w = (ErrorResponse err, w) \<and> etype err = VALIDATION_ERROR) \<and>
           filter is_network (trace (snd (generate_image e a w))) = filter is_network (trace w)) \<and>
         (m \<noteq> ''8000'' \<longrightarrow>
           saveImage e url p m f op wp pt ap w = (Inl (Error (incompatible_message ''svg'' m)), w))"
proof (intro conjI impI)
  assume h: "arg_format a = Some f \<and> requested_model a \<noteq> ''8000''"
  then obtain err where r: "generate_image e a w = (ErrorResponse err, w)"
      and t: "etype err = VALIDATION_ERROR"
    using generate_image_rejects_svg[OF assms, of a e w] by blast
  from r t show "\<exists>err. generate_image e a w = (ErrorResponse err, w) \<and> etype err = VALIDATION_ERROR"
    by blast
  from r show "filter is_network (trace (snd (generate_image e a w))) = filter is_network (trace w)"
    by simp
next
  assume "m \<noteq> ''8000''"
  then show "saveImage e url p m f op wp pt ap w = (Inl (Error (incompatible_message ''svg'' m)), w)"
    by (rule saveImage_rejects_svg[OF assms])
qed

theorem svg_needs_vector_model_witness:
  "toLowerCase ''svg'' = ''svg'' \<and> arg_format args_svg_flux = Some ''svg'' \<and>
   requested_model args_svg_flux \<noteq> ''8000'' \<and>
   (\<exists>err. generate_image env_ok args_svg_flux world_empty = (ErrorResponse err, world_empty) \<and>
          etype err = VALIDATION_ERROR) \<and>
   filter is_network (trace (snd (generate_image env_ok args_svg_flux world_empty))) = [] \<and>
   saveImage env_ok ''https://cdn.example/img'' ''A landscape'' ''5000'' ''svg'' None None None None
       world_empty =
     (Inl (Error (incompatible_message ''svg'' ''5000'')), world_empty)"
proof -
  have h: "toLowerCase ''svg'' = ''svg''" by code_simp
  have a: "arg_format args_svg_flux = Some ''svg''" by code_simp
  have r: "requested_model args_svg_flux \<noteq> ''8000''" by code_simp
  have m: "''5000'' \<noteq> ''8000''" by simp
  from svg_needs_vector_model[OF h, where a = args_svg_flux and m = "''5000''" and e = env_ok
         and w = world_empty and url = "''https://cdn.example/img''" and p = "''A landscape''"
         and op = None and wp = None and pt = None and ap = None]
       h a r m
  show ?thesis by (auto simp: world_empty_def)
qed

subsection \<open>The image count\<close>

lemma count_outside_range_rejected:
  "truthy (arg_prompt a) \<Longrightarrow> trim (or_default (arg_prompt a) []) \<noteq> [] \<Longrightarrow>
   arg_image_count a = Some n \<Longrightarrow> n \<noteq> 0 \<Longrightarrow> n < 1 \<or> n > 10 \<Longrightarrow>
   generate_image e a w =
     (ErrorResponse \<lparr>etype = VALIDATION_ERROR,
                     message = ''image_count must be between 1 and 10''\<rparr>, w)"
  by (auto simp: generate_image_def validate_request_def Let_def)

lemma run_generation_count:
  "run_generation e (a\<lparr>arg_image_count := c\<rparr>) p m f n w = run_generation e a p m f n w"
  by (simp add: run_generation_def Let_def
           cong: prod.case_cong sum.case_cong list.case_cong if_cong)

lemma validate_request_count_zero:
  "arg_image_count a = Some 0 \<Longrightarrow>
   validate_request a = validate_request (a\<lparr>arg_image_count := None\<rparr>)"
  by (simp add: validate_request_def requested_model_def Let_def)

lemma validate_request_count_default:
  "validate_request (a\<lparr>arg_image_count := None\<rparr>) \<noteq>
     Inl \<lparr>etype = VALIDATION_ERROR, message = ''image_count must be between 1 and 10''\<rparr>"
  by (simp add: validate_request_def Let_def incompatible_message_def)

text \<open>
  C2. At the count 0 the claim fails: \<open>args.image_count || 1\<close> turns 0 into 1 before the
  range check, so a request with the count 0 is answered exactly as the same request
  without a count, and never with the error of the range check.
\<close>

theorem count_zero_is_not_rejected:
  assumes "arg_image_count a = Some 0"
  shows "generate_image e a w = generate_image e (a\<lparr>arg_image_count := None\<rparr>) w \<and>
         validate_request a \<noteq>
           Inl \<lparr>etype = VALIDATION_ERROR, message = ''image_count must be between 1 and 10''\<rparr>"
proof
  show "generate_image e a w = generate_image e (a\<lparr>arg_image_count := None\<rparr>) w"
    unfolding generate_image_def validate_request_count_zero[OF assms]
    by (simp add: run_generation_count
             cong: sum.case_cong prod.case_cong)
  show "validate_request a \<noteq>
          Inl \<lparr>etype = VALIDATION_ERROR, message = ''image_count must be between 1 and 10''\<rparr>"
    unfolding validate_request_count_zero[OF assms] by (rule validate_request_count_default)
qed

theorem count_zero_is_not_rejected_witness:
  "fst (generate_image env_ok args_count_zero world_empty) =
     ImageGenerated ''FLUX1.1 (Standard quality)'' ''a cat'' ''PNG''
       ''/app/images/2025-01-02T03-04-05-678Z_5000_a_cat.png'' None \<and>
   hd (trace (snd (generate_image env_ok args_count_zero world_empty))) =
     CreateGeneration ''5000'' ''a cat'' 1 None"
proof -
  have z: "arg_image_count args_count_zero = Some 0" by (simp add: args_count_zero_def)
  have d: "fst (generate_image env_ok (args_count_zero\<lparr>arg_image_count := None\<rparr>) world_empty) =
             ImageGenerated ''FLUX1.1 (Standard quality)'' ''a cat'' ''PNG''
               ''/app/images/2025-01-02T03-04-05-678Z_5000_a_cat.png'' None \<and>
           hd (trace (snd (generate_image env_ok (args_count_zero\<lparr>arg_image_count := None\<rparr>)
                             world_empty))) =
             CreateGeneration ''5000'' ''a cat'' 1 None"
    by code_simp
  from conjunct1[OF count_zero_is_not_rejected[OF z, of env_ok world_empty]] d
  show ?thesis by simp
qed

subsection \<open>The retry loops\<close>

declare create_loop.simps [simp del] fetch_loop.simps [simp del]

lemma attempts_emit [simp]: "attempts P (emit ev w) = attempts P w + (if P ev then 1 else 0)"
  by (simp add: attempts_def emit_def)

lemma create_loop_all_fail:
  assumes fails: "\<forall>i<M. create_result e i = Inl (c i)"
  shows "k < M \<Longrightarrow>
         \<exists>w'. create_loop e M m p n k w = (Inl (c (M - 1)), w') \<and>
              attempts is_create w' = attempts is_create w + (M - k)"
proof (induction "M - k" arbitrary: k w)
  case 0
  then show ?case by simp
next
  case (Suc d)
  from Suc.prems fails have out: "create_result e k = Inl (c k)" by simp
  show ?case
  proof (cases "Suc k < M")
    case False
    with Suc.prems have k: "k = M - 1" by simp
    with Suc.prems out show ?thesis
      by (subst create_loop.simps) (simp add: Let_def)
  next
    case True
    from Suc.hyps(2) have d: "d = M - Suc k" by simp
    from Suc.hyps(1)[OF d True]
    obtain w' where w': "create_loop e M m p n (Suc k)
          (emit (Sleep (to_double (INITIAL_RETRY_DELAY * 2 ^ k)))
             (emit (CreateGeneration m p n (if m = ''8000'' then Some ''vector'' else None)) w)) =
          (Inl (c (M - 1)), w')"
      and a: "attempts is_create w' =
          attempts is_create (emit (Sleep (to_double (INITIAL_RETRY_DELAY * 2 ^ k)))
             (emit (CreateGeneration m p n (if m = ''8000'' then Some ''vector'' else None)) w)) + (M - Suc k)"
      by blast
    from True out w' a show ?thesis
      by (subst create_loop.simps) (simp add: Let_def)
  qed
qed

lemma create_loop_succeeds_at:
  assumes fails: "\<forall>i<j. \<exists>c. create_result e i = Inl c"
      and ok: "create_result e j = Inr g" and jM: "j < M"
  shows "k \<le> j \<Longrightarrow>
         \<exists>w'. create_loop e M m p n k w = (Inr (Some g), w') \<and>
              attempts is_create w' = attempts is_create w + (Suc j - k)"
proof (induction "j - k" arbitrary: k w)
  case 0
  then have "k = j" by simp
  with ok jM show ?case
    by (subst create_loop.simps) (simp add: Let_def)
next
  case (Suc d)
  then have kj: "k < j" by simp
  with fails obtain c where out: "create_result e k = Inl c" by blast
  from Suc.hyps(2) have d: "d = j - Suc k" by simp
  from kj have le: "Suc k \<le> j" by simp
  from Suc.hyps(1)[OF d le]
  obtain w' where w': "create_loop e M m p n (Suc k)
        (emit (Sleep (to_double (INITIAL_RETRY_DELAY * 2 ^ k)))
           (emit (CreateGeneration m p n (if m = ''8000'' then Some ''vector'' else None)) w)) =
        (Inr (Some g), w')"
    and a: "attempts is_create w' =
        attempts is_create (emit (Sleep (to_double (INITIAL_RETRY_DELAY * 2 ^ k)))
           (emit (CreateGeneration m p n (if m = ''8000'' then Some ''vector'' else None)) w)) + (Suc j - Suc k)"
    by blast
  from kj jM out w' a show ?case
    by (subst create_loop.simps) (simp add: Let_def)
qed

lemma fetch_loop_done: "\<not> k < M \<Longrightarrow> fetch_loop e M url k resp w = (Inr resp, w)"
  by (subst fetch_loop.simps) simp

lemma fetch_loop_all_fail:
  assumes fails: "\<forall>i<M. fetch_attempt_failed (fetch_result e i)"
  shows "k < M \<Longrightarrow>
         \<exists>w'. fetch_loop e M url k resp w =
                ((case fetch_result e (M - 1) of
                    Inl c \<Rightarrow> Inl c
                  | Inr r \<Rightarrow> if status r = 429 then Inr (Some r)
                            else Inl (Error (fetch_failed_message r))), w') \<and>
              attempts is_fetch w' = attempts is_fetch w + (M - k)"
proof (induction "M - k" arbitrary: k w resp)
  case 0
  then show ?case by simp
next
  case (Suc d)
  let ?R = "case fetch_result e (M - 1) of
              Inl c \<Rightarrow> Inl c
            | Inr r \<Rightarrow> if status r = 429 then Inr (Some r)
                      else Inl (Error (fetch_failed_message r))"
  from Suc.prems fails have failed: "fetch_attempt_failed (fetch_result e k)" by simp
  show ?case
  proof (cases "Suc k < M")
    case False
    with Suc.prems have k: "k = M - 1" and M: "0 < M" by simp_all
    have fin: "fetch_loop e M url M resp' w' = (Inr resp', w')" for resp' w'
      by (rule fetch_loop_done) simp
    from failed Suc.prems k show ?thesis
      by (subst fetch_loop.simps)
         (auto simp: Let_def fetch_attempt_failed_def fin split: sum.splits)
  next
    case True
    from Suc.hyps(2) have d: "d = M - Suc k" by simp
    have step: "\<exists>w''. fetch_loop e M url (Suc k) resp' w' = (?R, w'') \<and>
                     attempts is_fetch w'' = attempts is_fetch w + (M - k)"
      if "attempts is_fetch w' = attempts is_fetch w + 1" for resp' w'
      using Suc.hyps(1)[OF d True, of resp' w'] that True by auto
    have s1: "\<exists>w''. fetch_loop e M url (Suc k) resp'
                      (emit (Sleep dl) (emit (FetchUrl url) w)) = (?R, w'') \<and>
                    attempts is_fetch w'' = attempts is_fetch w + (M - k)" for resp' dl
      by (rule step) simp
    from True have nlast: "\<not> int M - 1 \<le> int k" by simp
    from failed Suc.prems nlast s1 show ?thesis
      by (subst fetch_loop.simps)
         (auto simp: Let_def fetch_attempt_failed_def split: sum.splits)
  qed
qed

lemma fetch_loop_succeeds_at:
  assumes fails: "\<forall>i<j. fetch_attempt_failed (fetch_result e i)"
      and ok: "fetch_result e j = Inr r" "response_ok r" and jM: "j < M"
  shows "k \<le> j \<Longrightarrow>
         \<exists>w'. fetch_loop e M url k resp w = (Inr (Some r), w') \<and>
              attempts is_fetch w' = attempts is_fetch w + (Suc j - k)"
proof (induction "j - k" arbitrary: k w resp)
  case 0
  then have "k = j" by simp
  with ok jM show ?case
    by (subst fetch_loop.simps) (simp add: Let_def)
next
  case (Suc d)
  then have kj: "k < j" by simp
  with fails have failed: "fetch_attempt_failed (fetch_result e k)" by blast
  from Suc.hyps(2) have d: "d = j - Suc k" by simp
  from kj have le: "Suc k \<le> j" by simp
  have s1: "\<exists>w''. fetch_loop e M url (Suc k) resp'
                    (emit (Sleep dl) (emit (FetchUrl url) w)) = (Inr (Some r), w'') \<and>
                  attempts is_fetch w'' = attempts is_fetch w + (Suc j - k)" for resp' dl
    using Suc.hyps(1)[OF d le, of resp' "emit (Sleep dl) (emit (FetchUrl url) w)"] kj by auto
  from kj jM have nlast: "\<not> int M - 1 \<le> int k" and kM: "k < M" by simp_all
  from failed kM nlast s1 show ?case
    by (subst fetch_loop.simps)
       (auto simp: Let_def fetch_attempt_failed_def split: sum.splits)
qed

lemma create_with_retry_all_fail:
  assumes "1 \<le> M" "\<forall>i<M. create_result e i = Inl (c i)"
  shows "\<exists>w'. create_with_retry e M m p n w = (Inl (c (M - 1)), w') \<and>
              attempts is_create w' = attempts is_create w + M"
  using create_loop_all_fail[OF assms(2), of 0 m p n w] assms(1)
  by (auto simp: create_with_retry_def)

lemma create_with_retry_succeeds:
  assumes "1 \<le> N" "N \<le> M" "\<forall>i<N - 1. \<exists>c. create_result e i = Inl c"
          "create_result e (N - 1) = Inr g"
  shows "\<exists>w'. create_with_retry e M m p n w = (Inr g, w') \<and>
              attempts is_create w' = attempts is_create w + N"
proof -
  from assms(1,2) have "N - 1 < M" by simp
  from create_loop_succeeds_at[OF assms(3) assms(4) this, of 0 m p n w] assms(1)
  show ?thesis by (auto simp: create_with_retry_def)
qed

lemma fetch_with_retry_all_fail:
  assumes "1 \<le> M" "\<forall>i<M. fetch_attempt_failed (fetch_result e i)"
  shows "\<exists>w'. fetch_with_retry e M url w = (Inl (last_fetch_error M (fetch_result e (M - 1))), w') \<and>
              attempts is_fetch w' = attempts is_fetch w + M"
proof -
  from assms have last: "fetch_attempt_failed (fetch_result e (M - 1))" by simp
  from fetch_loop_all_fail[OF assms(2), of 0 url None w] assms(1) last
  show ?thesis
    by (auto simp: fetch_with_retry_def last_fetch_error_def fetch_attempt_failed_def
             split: sum.splits)
qed

lemma fetch_with_retry_succeeds:
  assumes "1 \<le> N" "N \<le> M" "\<forall>i<N - 1. fetch_attempt_failed (fetch_result e i)"
          "fetch_result e (N - 1) = Inr r" "response_ok r"
  shows "\<exists>w'. fetch_with_retry e M url w = (Inr r, w') \<and>
              attempts is_fetch w' = attempts is_fetch w + N"
proof -
  from assms(1,2) have "N - 1 < M" by simp
  from fetch_loop_succeeds_at[OF assms(3) assms(4) assms(5) this, of 0 url None w] assms(1,5)
  show ?thesis by (auto simp: fetch_with_retry_def)
qed

text \<open>
  C3 (amended). With an attempt budget \<open>M \<ge> 1\<close> (\<open>MAX_RETRIES = 3\<close> in the source), each loop
  counting from 0 on its own: when every attempt fails, exactly \<open>M\<close> attempts are made;
  the submission loop then throws the cause of the last attempt itself, and the fetch loop
  throws the cause of the last attempt (what \<open>fetch\<close> threw, or "Failed to fetch image:
  text (status)" for a status other than 429) or, when the last answer was a 429, "Failed to
  fetch image after M attempts". When the first \<open>N - 1\<close> attempts fail and attempt \<open>N \<le> M\<close>
  succeeds, the loop returns that result after exactly \<open>N\<close> attempts.
\<close>

theorem retry_loops_attempts:
  assumes "1 \<le> M"
  shows "((\<forall>i<M. create_result e i = Inl (c i)) \<longrightarrow>
            (\<exists>w'. create_with_retry e M m p n w = (Inl (c (M - 1)), w') \<and>
                  attempts is_create w' = attempts is_create w + M)) \<and>
         ((\<forall>i<M. fetch_attempt_failed (fetch_result e i)) \<longrightarrow>
            (\<exists>w'. fetch_with_retry e M url w =
                    (Inl (last_fetch_error M (fetch_result e (M - 1))), w') \<and>
                  attempts is_fetch w' = attempts is_fetch w + M)) \<and>
         (1 \<le> N \<and> N \<le> M \<and> (\<forall>i<N - 1. \<exists>c. create_result e i = Inl c) \<and>
          create_result e (N - 1) = Inr g \<longrightarrow>
            (\<exists>w'. create_with_retry e M m p n w = (Inr g, w') \<and>
                  attempts is_create w' = attempts is_create w + N)) \<and>
         (1 \<le> N \<and> N \<le> M \<and> (\<forall>i<N - 1. fetch_attempt_failed (fetch_result e i)) \<and>
          fetch_result e (N - 1) = Inr r \<and> response_ok r \<longrightarrow>
            (\<exists>w'. fetch_with_retry e M url w = (Inr r, w') \<and>
                  attempts is_fetch w' = attempts is_fetch w + N))"
  using create_with_retry_all_fail[OF assms, of e c m p n w]
        fetch_with_retry_all_fail[OF assms, of e url w]
        create_with_retry_succeeds[of N M e g m p n w]
        fetch_with_retry_succeeds[of N M e r url w]
  by blast

text \<open>
  C3, as stated, fails: after three failed submissions the outcome is the third cause as it
  was thrown, not the error "Failed to create generation after multiple attempts"; and after
  three 429 answers the fetch loop's error names no cause.
\<close>

theorem exhausted_retries_outcome_counterexample:
  "fst (create_with_retry env_always_fails MAX_RETRIES ''5000'' ''a cat'' 1 world_empty) =
     Inl (Error ''ECONNRESET on attempt 3'') \<and>
   fst (create_with_retry env_always_fails MAX_RETRIES ''5000'' ''a cat'' 1 world_empty) \<noteq>
     Inl (Error exhausted_create_message) \<and>
   fst (fetch_with_retry env_always_fails MAX_RETRIES ''https://cdn.example/img'' world_empty) =
     Inl (Error ''Failed to fetch image after 3 attempts'')"
  by code_simp

lemma attempts_world_empty: "attempts P world_empty = 0"
  by (simp add: attempts_def world_empty_def)

theorem retry_loops_attempts_witness:
  "fst (create_with_retry env_always_fails MAX_RETRIES ''5000'' ''a cat'' 1 world_empty) =
     Inl (Error ''ECONNRESET on attempt 3'') \<and>
   attempts is_create
     (snd (create_with_retry env_always_fails MAX_RETRIES ''5000'' ''a cat'' 1 world_empty)) = 3 \<and>
   attempts is_fetch
     (snd (fetch_with_retry env_always_fails MAX_RETRIES ''https://cdn.example/img'' world_empty)) = 3 \<and>
   fst (create_with_retry env_third_time MAX_RETRIES ''5000'' ''a cat'' 1 world_empty) =
     Inr [''gen-1''] \<and>
   attempts is_create
     (snd (create_with_retry env_third_time MAX_RETRIES ''5000'' ''a cat'' 1 world_empty)) = 3 \<and>
   attempts is_fetch
     (snd (fetch_with_retry env_third_time MAX_RETRIES ''https://cdn.example/img'' world_empty)) = 3"
proof -
  have M: "1 \<le> MAX_RETRIES" by (simp add: MAX_RETRIES_def)
  have N: "1 \<le> (3::nat) \<and> 3 \<le> MAX_RETRIES" by (simp add: MAX_RETRIES_def)
  have cf: "\<forall>i<MAX_RETRIES. create_result env_always_fails i =
              Inl (Error (''ECONNRESET on attempt '' @ nat_to_string (Suc i)))"
    by (simp add: env_always_fails_def)
  have ff: "\<forall>i<MAX_RETRIES. fetch_attempt_failed (fetch_result env_always_fails i)"
    by (simp add: env_always_fails_def fetch_attempt_failed_def response_ok_def)
  have c3: "(\<forall>i<3 - 1. \<exists>c. create_result env_third_time i = Inl c) \<and>
            create_result env_third_time (3 - 1) = Inr [''gen-1'']"
    by (simp add: env_third_time_def)
  have f3: "(\<forall>i<3 - 1. fetch_attempt_failed (fetch_result env_third_time i)) \<and>
            fetch_result env_third_time (3 - 1) =
              Inr \<lparr>status = 200, statusText = ''OK'', retry_after = None, body = Inr ''<svg/>''\<rparr> \<and>
            response_ok \<lparr>status = 200, statusText = ''OK'', retry_after = None,
                         body = Inr ''<svg/>''\<rparr>"
    by (simp add: env_third_time_def fetch_attempt_failed_def response_ok_def)
  have last: "nat_to_string (Suc (MAX_RETRIES - 1)) = ''3''" by code_simp
  note A = retry_loops_attempts[OF M, where e = env_always_fails and w = world_empty
             and c = "\<lambda>i. Error (''ECONNRESET on attempt '' @ nat_to_string (Suc i))"
             and m = "''5000''" and p = "''a cat''" and n = 1 and url = "''https://cdn.example/img''"]
  note B = retry_loops_attempts[OF M, where e = env_third_time and w = world_empty and N = 3
             and g = "[''gen-1'']" and m = "''5000''" and p = "''a cat''" and n = 1
             and url = "''https://cdn.example/img''"
             and r = "\<lparr>status = 200, statusText = ''OK'', retry_after = None, body = Inr ''<svg/>''\<rparr>"]
  from mp[OF conjunct1[OF A] cf] last
  have a1: "fst (create_with_retry env_always_fails MAX_RETRIES ''5000'' ''a cat'' 1 world_empty) =
              Inl (Error ''ECONNRESET on attempt 3'') \<and>
            attempts is_create
              (snd (create_with_retry env_always_fails MAX_RETRIES ''5000'' ''a cat'' 1 world_empty)) = 3"
    by (auto simp: attempts_world_empty MAX_RETRIES_def)
  from mp[OF conjunct1[OF conjunct2[OF A]] ff]
  have a2: "attempts is_fetch
     (snd (fetch_with_retry env_always_fails MAX_RETRIES ''https://cdn.example/img'' world_empty)) = 3"
    by (auto simp: attempts_world_empty MAX_RETRIES_def)
  from conjunct1[OF conjunct2[OF conjunct2[OF B]]] N c3
  have b1: "fst (create_with_retry env_third_time MAX_RETRIES ''5000'' ''a cat'' 1 world_empty) =
              Inr [''gen-1''] \<and>
            attempts is_create
              (snd (create_with_retry env_third_time MAX_RETRIES ''5000'' ''a cat'' 1 world_empty)) = 3"
    by (auto simp: attempts_world_empty)
  from conjunct2[OF conjunct2[OF conjunct2[OF B]]] N f3
  have b2: "attempts is_fetch
     (snd (fetch_with_retry env_third_time MAX_RETRIES ''https://cdn.example/img'' world_empty)) = 3"
    by (auto simp: attempts_world_empty)
  from a1 a2 b1 b2 show ?thesis by simp
qed

subsection \<open>Decimal strings and \<open>parseInt\<close>\<close>

declare nat_to_string.simps [simp del]

lemma is_digit_char_of: "(d::nat) < 10 \<Longrightarrow> is_digit (char_of (48 + d))"
  by (simp add: is_digit_def of_char_of)

lemma digit_value_char_of: "(d::nat) < 10 \<Longrightarrow> digit_value (char_of (48 + d)) = int d"
  by (simp add: digit_value_def of_char_of)

lemma nat_to_string_digits: "c \<in> set (nat_to_string n) \<Longrightarrow> is_digit c"
proof (induction n rule: nat_to_string.induct)
  case (1 n)
  show ?case
  proof (cases "n < 10")
    case True
    with "1.prems" show ?thesis
      by (subst (asm) nat_to_string.simps) (simp add: is_digit_char_of)
  next
    case False
    with "1.prems" "1.IH" show ?thesis
      by (subst (asm) nat_to_string.simps) (auto simp: is_digit_char_of)
  qed
qed

lemma nat_to_string_nonempty: "nat_to_string n \<noteq> []"
  by (subst nat_to_string.simps) simp

lemma digits_value_snoc: "digits_value acc (xs @ [c]) = 10 * digits_value acc xs + digit_value c"
  by (induction xs arbitrary: acc) simp_all

lemma int_div_mod_10: "10 * int (n div 10) + int (n mod 10) = int n"
  by (simp add: zdiv_int zmod_int)

lemma digits_value_nat_to_string: "digits_value 0 (nat_to_string n) = int n"
proof (induction n rule: nat_to_string.induct)
  case (1 n)
  show ?case
  proof (cases "n < 10")
    case True
    then show ?thesis
      by (subst nat_to_string.simps) (simp add: digit_value_char_of)
  next
    case False
    with "1.IH" show ?thesis
      by (subst nat_to_string.simps) (simp add: digits_value_snoc digit_value_char_of int_div_mod_10)
  qed
qed

lemma digit_not_space: "is_digit c \<Longrightarrow> \<not> is_space c"
  by (auto simp: is_digit_def is_space_def)

lemma digit_not_sign: "is_digit c \<Longrightarrow> c \<noteq> CHR ''-'' \<and> c \<noteq> CHR ''+''"
  by (auto simp: is_digit_def)

lemma parseInt_digits:
  assumes "s \<noteq> []" "\<forall>c\<in>set s. is_digit c"
  shows "parseInt s = to_double (digits_value 0 s)"
proof -
  from assms obtain c r where s: "s = c # r" by (cases s) auto
  with assms have c: "is_digit c" by simp
  from assms(2) have tw: "takeWhile is_digit s = s" by (simp add: takeWhile_eq_all_conv)
  from s c have dw: "dropWhile is_space s = s" by (simp add: digit_not_space)
  from digit_not_sign[OF c] s dw tw assms(1) show ?thesis
    by (simp add: parseInt_def Let_def)
qed

lemma parseInt_nat_to_string: "parseInt (nat_to_string n) = to_double (int n)"
  using parseInt_digits[of "nat_to_string n"] nat_to_string_nonempty[of n] nat_to_string_digits[of _ n]
  by (simp add: digits_value_nat_to_string)

lemma parseInt_default: "parseInt ''5'' = Num 5"
  by code_simp

subsection \<open>The rate limit\<close>

lemma retry_after_delay_absent: "retry_after r = None \<Longrightarrow> retry_after_delay r = Num 5000"
  by (simp add: retry_after_delay_def parseInt_default to_double_def)

lemma retry_after_delay_seconds:
  assumes "retry_after r = Some (nat_to_string secs)" "int secs * 1000 \<le> 2 ^ 53"
  shows "retry_after_delay r = Num (int secs * 1000)"
proof -
  from assms(2) have "\<bar>int secs\<bar> \<le> 2 ^ 53" and "\<bar>int secs * 1000\<bar> \<le> 2 ^ 53" by simp_all
  with assms(1) show ?thesis
    by (simp add: retry_after_delay_def parseInt_nat_to_string nat_to_string_nonempty to_double_def)
qed

lemma trace_emit [simp]: "trace (emit ev w) = trace w @ [ev]"
  by (simp add: emit_def)

lemma fetch_loop_trace_extends:
  "\<exists>evs. trace (snd (fetch_loop e M url k resp w)) = trace w @ evs"
proof (induction "M - k" arbitrary: k w resp)
  case 0
  then show ?case by (subst fetch_loop.simps) simp
next
  case (Suc d)
  from Suc.hyps(2) have d: "d = M - Suc k" and kM: "k < M" by simp_all
  have s1: "\<exists>evs. trace (snd (fetch_loop e M url (Suc k) resp'
                (emit (Sleep dl) (emit (FetchUrl url) w)))) = trace w @ evs" for resp' dl
    using Suc.hyps(1)[OF d, of resp' "emit (Sleep dl) (emit (FetchUrl url) w)"] by auto
  from kM s1 show ?case
    by (subst fetch_loop.simps) (auto simp: Let_def split: sum.splits)
qed

lemma fetch_loop_starts_with_fetch:
  assumes "k < M"
  shows "\<exists>rest. trace (snd (fetch_loop e M url k resp w)) = trace w @ FetchUrl url # rest"
proof -
  have s1: "\<exists>rest. trace (snd (fetch_loop e M url (Suc k) resp'
                (emit (Sleep dl) (emit (FetchUrl url) w)))) = trace w @ FetchUrl url # rest" for resp' dl
    using fetch_loop_trace_extends[of e M url "Suc k" resp' "emit (Sleep dl) (emit (FetchUrl url) w)"]
    by auto
  from assms s1 show ?thesis
    by (subst fetch_loop.simps) (auto simp: Let_def split: sum.splits)
qed

lemma fetch_loop_skips_failures:
  assumes fails: "\<forall>i<k. fetch_attempt_failed (fetch_result e i)" and kM: "k < M"
  shows "j \<le> k \<Longrightarrow>
         \<exists>resp' wk evs. fetch_loop e M url j resp w = fetch_loop e M url k resp' wk \<and>
                        trace wk = trace w @ evs \<and> length (filter is_fetch evs) = k - j"
proof (induction "k - j" arbitrary: j w resp)
  case 0
  then have "j = k" by simp
  then have "fetch_loop e M url j resp w = fetch_loop e M url k resp w \<and>
             trace w = trace w @ [] \<and> length (filter is_fetch []) = k - j" by simp
  then show ?case by blast
next
  case (Suc d)
  then have jk: "j < k" by simp
  with fails have failed: "fetch_attempt_failed (fetch_result e j)" by blast
  from Suc.hyps(2) have d: "d = k - Suc j" by simp
  from jk have le: "Suc j \<le> k" by simp
  have s1: "\<exists>resp'' wk evs.
              fetch_loop e M url (Suc j) resp' (emit (Sleep dl) (emit (FetchUrl url) w)) =
                fetch_loop e M url k resp'' wk \<and>
              trace wk = trace w @ evs \<and> length (filter is_fetch evs) = k - j" for resp' dl
  proof -
    from Suc.hyps(1)[OF d le, of resp' "emit (Sleep dl) (emit (FetchUrl url) w)"]
    obtain resp'' wk evs where
      eq: "fetch_loop e M url (Suc j) resp' (emit (Sleep dl) (emit (FetchUrl url) w)) =
             fetch_loop e M url k resp'' wk"
      and tr: "trace wk = trace (emit (Sleep dl) (emit (FetchUrl url) w)) @ evs"
      and len: "length (filter is_fetch evs) = k - Suc j" by blast
    from tr have "trace wk = trace w @ (FetchUrl url # Sleep dl # evs)" by simp
    moreover from len jk have "length (filter is_fetch (FetchUrl url # Sleep dl # evs)) = k - j"
      by simp
    ultimately show ?thesis using eq by blast
  qed
  from jk kM have nlast: "\<not> int M - 1 \<le> int j" and jM: "j < M" by simp_all
  from failed jM nlast s1 show ?case
    by (subst fetch_loop.simps)
       (auto simp: Let_def fetch_attempt_failed_def split: sum.splits)
qed

lemma fetch_loop_rate_limited_step:
  assumes "retryCount < M" "fetch_result e retryCount = Inr r" "status r = 429"
  shows "fetch_loop e M url retryCount resp w =
           fetch_loop e M url (Suc retryCount) (Some r)
             (emit (Sleep (retry_after_delay r)) (emit (FetchUrl url) w))"
proof -
  from assms(3) have "\<not> response_ok r" by (simp add: response_ok_def)
  with assms show ?thesis by (subst fetch_loop.simps) (simp add: Let_def)
qed

lemma snd_fetch_with_retry:
  "snd (fetch_with_retry e M url w) = snd (fetch_loop e M url 0 None w)"
  by (auto simp: fetch_with_retry_def split: prod.splits sum.splits option.splits)

text \<open>
  C5, as stated, fails: a 429 answer to the last attempt of the budget is followed by the
  wait of its retry-after hint and then by the failure, with no further fetch; and a
  retry-after header that is a date gives the delay \<open>NaN\<close>.
\<close>

theorem rate_limit_last_attempt_counterexample:
  "fst (fetch_with_retry env_rate_limited_last MAX_RETRIES ''https://cdn.example/img'' world_empty) =
     Inl (Error ''Failed to fetch image after 3 attempts'') \<and>
   trace (snd (fetch_with_retry env_rate_limited_last MAX_RETRIES ''https://cdn.example/img''
                 world_empty)) =
     [FetchUrl ''https://cdn.example/img'', Sleep (Num 1000),
      FetchUrl ''https://cdn.example/img'', Sleep (Num 2000),
      FetchUrl ''https://cdn.example/img'', Sleep (Num 7000)] \<and>
   retry_after_delay response_with_date_hint = NaN"
  by code_simp

lemma rate_limited_then_retry:
  assumes k: "Suc retryCount < M"
      and before: "\<forall>i<retryCount. fetch_attempt_failed (fetch_result e i)"
      and r: "fetch_result e retryCount = Inr r" "status r = 429"
  shows "\<exists>pre rest.
           trace (snd (fetch_with_retry e M url w)) =
             trace w @ pre @ [FetchUrl url, Sleep (retry_after_delay r), FetchUrl url] @ rest \<and>
           length (filter is_fetch pre) = retryCount"
proof -
  from k have kM: "retryCount < M" by simp
  from fetch_loop_skips_failures[OF before kM, of 0 url None w]
  obtain resp' wk pre where
    eq: "fetch_loop e M url 0 None w = fetch_loop e M url retryCount resp' wk"
    and tr: "trace wk = trace w @ pre" and len: "length (filter is_fetch pre) = retryCount"
    by auto
  let ?w1 = "emit (Sleep (retry_after_delay r)) (emit (FetchUrl url) wk)"
  from fetch_loop_rate_limited_step[OF kM r, of url resp' wk]
  have step: "fetch_loop e M url retryCount resp' wk = fetch_loop e M url (Suc retryCount) (Some r) ?w1" .
  from fetch_loop_starts_with_fetch[OF k, of e url "Some r" ?w1]
  obtain rest where
    "trace (snd (fetch_loop e M url (Suc retryCount) (Some r) ?w1)) = trace ?w1 @ FetchUrl url # rest"
    by blast
  with eq step tr
  have "trace (snd (fetch_with_retry e M url w)) =
          trace w @ pre @ [FetchUrl url, Sleep (retry_after_delay r), FetchUrl url] @ rest"
    by (simp add: snd_fetch_with_retry)
  with len show ?thesis by blast
qed

lemma rate_limited_on_last_attempt:
  assumes k: "Suc retryCount = M"
      and before: "\<forall>i<retryCount. fetch_attempt_failed (fetch_result e i)"
      and r: "fetch_result e retryCount = Inr r" "status r = 429"
  shows "\<exists>pre w'.
           fetch_with_retry e M url w = (Inl (Error (exhausted_fetch_message M)), w') \<and>
           trace w' = trace w @ pre @ [FetchUrl url, Sleep (retry_after_delay r)] \<and>
           length (filter is_fetch pre) = retryCount"
proof -
  from k have kM: "retryCount < M" by simp
  from r(2) have nok: "\<not> response_ok r" by (simp add: response_ok_def)
  from fetch_loop_skips_failures[OF before kM, of 0 url None w]
  obtain resp' wk pre where
    eq: "fetch_loop e M url 0 None w = fetch_loop e M url retryCount resp' wk"
    and tr: "trace wk = trace w @ pre" and len: "length (filter is_fetch pre) = retryCount"
    by auto
  let ?w1 = "emit (Sleep (retry_after_delay r)) (emit (FetchUrl url) wk)"
  from fetch_loop_rate_limited_step[OF kM r, of url resp' wk]
  have step: "fetch_loop e M url retryCount resp' wk = fetch_loop e M url (Suc retryCount) (Some r) ?w1" .
  have fin: "fetch_loop e M url (Suc retryCount) (Some r) ?w1 = (Inr (Some r), ?w1)"
    using k by (intro fetch_loop_done) simp
  from eq step fin nok
  have "fetch_with_retry e M url w = (Inl (Error (exhausted_fetch_message M)), ?w1)"
    by (simp add: fetch_with_retry_def)
  moreover from tr have "trace ?w1 = trace w @ pre @ [FetchUrl url, Sleep (retry_after_delay r)]"
    by simp
  ultimately show ?thesis using len by blast
qed

text \<open>
  C5 (amended). When the attempts before it have failed and an attempt within the budget is
  answered 429, the delay of the wait is the retry-after header read as decimal seconds,
  times 1000 (5000 when the header is absent), and not the exponential delay. When an
  attempt is left in the budget, the next fetch follows that wait directly; when the 429
  answers the last attempt of the budget, nothing is fetched after the wait and the fetch
  fails with "Failed to fetch image after M attempts". The 429 counts as one attempt of the
  budget like any other.
\<close>

theorem rate_limit_waits_then_retries_within_budget:
  assumes "retryCount < M"
      and "\<forall>i<retryCount. fetch_attempt_failed (fetch_result e i)"
      and "fetch_result e retryCount = Inr r" and "status r = 429"
  shows "(retry_after r = None \<longrightarrow> retry_after_delay r = Num 5000) \<and>
         (retry_after r = Some (nat_to_string secs) \<and> int secs * 1000 \<le> 2 ^ 53 \<longrightarrow>
            retry_after_delay r = Num (int secs * 1000)) \<and>
         (Suc retryCount < M \<longrightarrow>
            (\<exists>pre rest.
               trace (snd (fetch_with_retry e M url w)) =
                 trace w @ pre @ [FetchUrl url, Sleep (retry_after_delay r), FetchUrl url] @ rest \<and>
               length (filter is_fetch pre) = retryCount)) \<and>
         (Suc retryCount = M \<longrightarrow>
            (\<exists>pre w'.
               fetch_with_retry e M url w = (Inl (Error (exhausted_fetch_message M)), w') \<and>
               trace w' = trace w @ pre @ [FetchUrl url, Sleep (retry_after_delay r)] \<and>
               length (filter is_fetch pre) = retryCount))"
  using retry_after_delay_absent[of r] retry_after_delay_seconds[of r secs]
        rate_limited_then_retry[OF _ assms(2,3,4), of M url w]
        rate_limited_on_last_attempt[OF _ assms(2,3,4), of M url w]
  by blast

theorem rate_limit_waits_then_retries_within_budget_witness:
  "retry_after_delay \<lparr>status = 429, statusText = ''Too Many Requests'', retry_after = Some ''2'',
                       body = Inr []\<rparr> = Num 2000 \<and>
   (\<exists>pre rest.
      trace (snd (fetch_with_retry env_always_fails MAX_RETRIES ''https://cdn.example/img'' world_empty)) =
        pre @ [FetchUrl ''https://cdn.example/img'', Sleep (Num 2000),
               FetchUrl ''https://cdn.example/img''] @ rest \<and>
      length (filter is_fetch pre) = 0) \<and>
   (\<exists>pre w'.
      fetch_with_retry env_always_fails MAX_RETRIES ''https://cdn.example/img'' world_empty =
        (Inl (Error (exhausted_fetch_message MAX_RETRIES)), w') \<and>
      trace w' = pre @ [FetchUrl ''https://cdn.example/img'', Sleep (Num 2000)] \<and>
      length (filter is_fetch pre) = 2)"
proof -
  let ?r = "\<lparr>status = 429, statusText = ''Too Many Requests'', retry_after = Some ''2'',
             body = Inr []\<rparr>"
  let ?u = "''https://cdn.example/img''"
  have two: "nat_to_string 2 = ''2''" by code_simp
  have hint: "retry_after ?r = Some (nat_to_string 2) \<and> int 2 * 1000 \<le> 2 ^ 53"
    by (simp add: two)
  have out: "fetch_result env_always_fails i = Inr ?r" for i
    by (simp add: env_always_fails_def)
  have st: "status ?r = 429" by simp
  have failed: "\<forall>i<n. fetch_attempt_failed (fetch_result env_always_fails i)" for n
    by (simp add: out fetch_attempt_failed_def response_ok_def)
  have first: "0 < MAX_RETRIES" and last: "2 < MAX_RETRIES" by (simp_all add: MAX_RETRIES_def)
  have retry: "Suc 0 < MAX_RETRIES" and final: "Suc 2 = MAX_RETRIES" by (simp_all add: MAX_RETRIES_def)
  note A = rate_limit_waits_then_retries_within_budget[OF first failed out st,
             where secs = 2 and url = ?u and w = world_empty]
  note B = rate_limit_waits_then_retries_within_budget[OF last failed out st,
             where secs = 2 and url = ?u and w = world_empty]
  from mp[OF conjunct1[OF conjunct2[OF A]] hint] have d: "retry_after_delay ?r = Num 2000" by simp
  from mp[OF conjunct1[OF conjunct2[OF conjunct2[OF A]]] retry]
  have a: "\<exists>pre rest.
      trace (snd (fetch_with_retry env_always_fails MAX_RETRIES ?u world_empty)) =
        pre @ [FetchUrl ?u, Sleep (Num 2000), FetchUrl ?u] @ rest \<and>
      length (filter is_fetch pre) = 0"
    unfolding d by (simp add: world_empty_def)
  from mp[OF conjunct2[OF conjunct2[OF conjunct2[OF B]]] final]
  have b: "\<exists>pre w'.
      fetch_with_retry env_always_fails MAX_RETRIES ?u world_empty =
        (Inl (Error (exhausted_fetch_message MAX_RETRIES)), w') \<and>
      trace w' = pre @ [FetchUrl ?u, Sleep (Num 2000)] \<and>
      length (filter is_fetch pre) = 2"
    unfolding d by (simp add: world_empty_def)
  from d a b show ?thesis by blast
qed

subsection \<open>The explicit output path\<close>

lemma extname_trailing_separator:
  assumes stem: "stem \<noteq> []" and ext: "ext \<noteq> []"
      and chars: "\<forall>c\<in>set (stem @ ext). c \<noteq> CHR ''/'' \<and> c \<noteq> CHR ''.''"
  shows "path_extname (stem @ ''.'' @ ext @ ''/'') = CHR ''.'' # ext"
proof -
  let ?p = "stem @ ''.'' @ ext @ ''/''"
  let ?r = "rev ext @ CHR ''.'' # rev stem"
  have rev: "rev ?p = CHR ''/'' # ?r" by simp
  from ext obtain y ys where r: "rev ext = y # ys" by (cases "rev ext") auto
  then have "y \<in> set ext" by (metis list.set_intros(1) set_rev)
  with chars have y: "y \<noteq> CHR ''/''" by simp
  have dw: "dropWhile (\<lambda>c. c = CHR ''/'') (rev ?p) = ?r"
    unfolding rev using r y by simp
  have all: "\<forall>c\<in>set ?r. c \<noteq> CHR ''/''" using chars by auto
  have tw: "takeWhile (\<lambda>c. c \<noteq> CHR ''/'') ?r = ?r"
    using all by (simp add: takeWhile_eq_all_conv)
  have seg: "last_component ?p = stem @ CHR ''.'' # ext"
    unfolding last_component_def dw tw by simp
  have nodot: "\<forall>c\<in>set (rev ext). c \<noteq> CHR ''.''" using chars by auto
  have "takeWhile (\<lambda>c. c \<noteq> CHR ''.'') (rev ext @ CHR ''.'' # rev stem) =
        rev ext @ takeWhile (\<lambda>c. c \<noteq> CHR ''.'') (CHR ''.'' # rev stem)"
    using nodot by (intro takeWhile_append2) simp
  then have after: "takeWhile (\<lambda>c. c \<noteq> CHR ''.'') (rev (stem @ CHR ''.'' # ext)) = rev ext"
    by simp
  have len: "length (stem @ CHR ''.'' # ext) \<noteq> 2" "length (rev ext) + 1 \<noteq> length (stem @ CHR ''.'' # ext)"
    using stem ext by (cases stem; cases ext; simp)+
  have ne: "stem @ CHR ''.'' # ext \<noteq> ''..''"
  proof
    assume "stem @ CHR ''.'' # ext = ''..''"
    then have "length (stem @ CHR ''.'' # ext) = length ''..''" by (rule arg_cong)
    with len(1) show False by simp
  qed
  show ?thesis
    unfolding path_extname_def seg Let_def after using len(2) ne by simp
qed

text \<open>
  C4. At an output path that ends in a separator the claim fails: \<open>path.extname\<close> of
  \<open>stem.ext/\<close> is \<open>.ext\<close>, and cutting that many characters from the end of the path takes
  the separator and leaves the dot, so for a format other than \<open>ext\<close> the file path is
  \<open>stem..format\<close>: the base name is not kept. (For a path that does not end in a separator
  the extension is replaced as the claim says: the last lemma of this subsection.)
\<close>

theorem explicit_path_trailing_separator:
  assumes "stem \<noteq> []" and "ext \<noteq> []"
      and "\<forall>c\<in>set (stem @ ext). c \<noteq> CHR ''/'' \<and> c \<noteq> CHR ''.''"
      and "toLowerCase ext \<noteq> toLowerCase fmt"
  shows "explicit_filepath (stem @ ''.'' @ ext @ ''/'') fmt =
           (stem @ ''..'' @ fmt, Some (extension_warning (''.'' @ ext) fmt))"
  using assms(4) extname_trailing_separator[OF assms(1,2,3)]
  by (simp add: explicit_filepath_def Let_def)

theorem explicit_path_trailing_separator_witness:
  "explicit_filepath ''pic.jpg/'' ''webp'' =
     (''pic..webp'', Some (extension_warning ''.jpg'' ''webp''))"
proof -
  have s: "''pic'' \<noteq> []" and x: "''jpg'' \<noteq> []" by simp_all
  have c: "\<forall>c\<in>set (''pic'' @ ''jpg''). c \<noteq> CHR ''/'' \<and> c \<noteq> CHR ''.''" by simp
  have l: "toLowerCase ''jpg'' \<noteq> toLowerCase ''webp''" by code_simp
  from explicit_path_trailing_separator[OF s x c l] show ?thesis by simp
qed

lemma extname_is_suffix:
  assumes "op \<noteq> []" "last op \<noteq> CHR ''/''" "path_extname op \<noteq> []"
  shows "\<exists>stem. op = stem @ path_extname op"
proof -
  let ?T = "takeWhile (\<lambda>c. c \<noteq> CHR ''/'') (rev op)"
  let ?A = "takeWhile (\<lambda>c. c \<noteq> CHR ''.'') ?T"
  let ?D = "dropWhile (\<lambda>c. c \<noteq> CHR ''.'') ?T"
  from assms(1,2) have "dropWhile (\<lambda>c. c = CHR ''/'') (rev op) = rev op"
    by (cases op rule: rev_cases) simp_all
  then have seg: "last_component op = rev ?T" by (simp add: last_component_def)
  from assms(3) have dot: "CHR ''.'' \<in> set ?T" and ext: "path_extname op = CHR ''.'' # rev ?A"
    unfolding path_extname_def seg Let_def by (simp_all split: if_splits)
  from dot have "?D \<noteq> []" by auto
  then obtain d ds where D: "?D = d # ds" by (cases ?D) auto
  have "\<not> (hd ?D \<noteq> CHR ''.'')" using \<open>?D \<noteq> []\<close> by (rule hd_dropWhile)
  with D have d: "d = CHR ''.''" by simp
  have "rev op = ?T @ dropWhile (\<lambda>c. c \<noteq> CHR ''/'') (rev op)" by simp
  also have "?T = ?A @ ?D" by simp
  finally have "rev op = ?A @ CHR ''.'' # ds @ dropWhile (\<lambda>c. c \<noteq> CHR ''/'') (rev op)"
    using D d by simp
  then have "rev (rev op) =
      rev (?A @ CHR ''.'' # ds @ dropWhile (\<lambda>c. c \<noteq> CHR ''/'') (rev op))" by (rule arg_cong)
  then have "op = rev (ds @ dropWhile (\<lambda>c. c \<noteq> CHR ''/'') (rev op)) @ CHR ''.'' # rev ?A"
    by simp
  with ext have "op = rev (ds @ dropWhile (\<lambda>c. c \<noteq> CHR ''/'') (rev op)) @ path_extname op"
    by simp
  then show ?thesis
    by (rule exI[where x = "rev (ds @ dropWhile (\<lambda>c. c \<noteq> CHR ''/'') (rev op))"])
qed

lemma explicit_filepath_replaces_extension:
  assumes "op \<noteq> []" "last op \<noteq> CHR ''/''" "path_extname op \<noteq> []"
      and "toLowerCase (drop 1 (path_extname op)) \<noteq> toLowerCase fmt"
  shows "\<exists>stem. op = stem @ path_extname op \<and>
           explicit_filepath op fmt =
             (stem @ ''.'' @ fmt, Some (extension_warning (path_extname op) fmt))"
proof -
  from extname_is_suffix[OF assms(1,2,3)] obtain stem where s: "op = stem @ path_extname op" ..
  then have "take (length op - length (path_extname op)) op = stem"
    by (metis append_eq_conv_conj length_append add_diff_cancel_right')
  with assms(3,4) s show ?thesis by (auto simp: explicit_filepath_def Let_def)
qed

subsection \<open>A completed generation without an image URL\<close>

text \<open>
  C7, as stated, fails: a completed generation without an image URL ends in an error of the
  kind \<open>UNKNOWN_ERROR\<close>, not \<open>API_ERROR\<close>.
\<close>

theorem missing_image_url_counterexample:
  "failure_type (fst (generate_image env_no_image_url args_cat world_empty)) = Some UNKNOWN_ERROR \<and>
   failure_type (fst (generate_image env_no_image_url args_cat world_empty)) \<noteq> Some API_ERROR"
  by code_simp

lemma categorize_no_image_url:
  "categorize_error (Error ''No image URL in the completed generation'') =
     \<lparr>etype = UNKNOWN_ERROR, message = ''No image URL in the completed generation''\<rparr>"
  by code_simp

lemma filter_emit [simp]: "filter P (trace (emit ev w)) = filter P (trace w) @ (if P ev then [ev] else [])"
  by (simp add: emit_def)

lemma create_loop_trace:
  "filter (\<lambda>ev. is_fetch ev \<or> is_write ev) (trace (snd (create_loop e M m p n k w))) =
   filter (\<lambda>ev. is_fetch ev \<or> is_write ev) (trace w)"
proof (induction "M - k" arbitrary: k w)
  case 0
  then show ?case by (subst create_loop.simps) simp
next
  case (Suc d)
  from Suc.hyps(2) have d: "d = M - Suc k" and kM: "k < M" by simp_all
  from Suc.hyps(1)[OF d] kM show ?case
    by (subst create_loop.simps) (auto simp: Let_def split: sum.splits)
qed

lemma create_with_retry_trace:
  "filter (\<lambda>ev. is_fetch ev \<or> is_write ev) (trace (snd (create_with_retry e M m p n w))) =
   filter (\<lambda>ev. is_fetch ev \<or> is_write ev) (trace w)"
  using create_loop_trace[of e M m p n 0 w]
  by (auto simp: create_with_retry_def split: prod.splits sum.splits option.splits)

text \<open>
  C7 (amended). When the request passes the checks, the submission loop returns a
  generation and polling returns a generation record without an image URL, \<open>generate_image\<close>
  answers with an error of the kind \<open>UNKNOWN_ERROR\<close> and the message "No image URL in the
  completed generation"; nothing is fetched and nothing is written.
\<close>

theorem missing_image_url_is_unknown_error:
  assumes "validate_request a = Inr (p, m, f, n)"
      and "create_with_retry e MAX_RETRIES m p n w = (Inr (g # gs), w1)"
      and "poll_result e g = Inr url" and "\<not> truthy url"
  shows "generate_image e a w =
           (ErrorResponse \<lparr>etype = UNKNOWN_ERROR,
                           message = ''No image URL in the completed generation''\<rparr>,
            emit (PollGeneration g) w1) \<and>
         filter (\<lambda>ev. is_fetch ev \<or> is_write ev) (trace (snd (generate_image e a w))) =
         filter (\<lambda>ev. is_fetch ev \<or> is_write ev) (trace w)"
proof -
  have run: "run_generation e a p m f n w =
               (Inl (Error ''No image URL in the completed generation''), emit (PollGeneration g) w1)"
    using assms(2,3,4) by (simp add: run_generation_def Let_def)
  have gen: "generate_image e a w =
           (ErrorResponse \<lparr>etype = UNKNOWN_ERROR,
                           message = ''No image URL in the completed generation''\<rparr>,
            emit (PollGeneration g) w1)"
    using assms(1) run by (simp add: generate_image_def categorize_no_image_url)
  from create_with_retry_trace[of e MAX_RETRIES m p n w] assms(2)
  have "filter (\<lambda>ev. is_fetch ev \<or> is_write ev) (trace w1) =
        filter (\<lambda>ev. is_fetch ev \<or> is_write ev) (trace w)" by simp
  with gen show ?thesis by simp
qed

theorem missing_image_url_is_unknown_error_witness:
  "fst (generate_image env_no_image_url args_cat world_empty) =
     ErrorResponse \<lparr>etype = UNKNOWN_ERROR,
                    message = ''No image URL in the completed generation''\<rparr> \<and>
   filter (\<lambda>ev. is_fetch ev \<or> is_write ev)
     (trace (snd (generate_image env_no_image_url args_cat world_empty))) = []"
proof -
  have v: "validate_request args_cat = Inr (''a cat'', ''5000'', ''png'', 1)" by code_simp
  have c: "create_with_retry env_no_image_url MAX_RETRIES ''5000'' ''a cat'' 1 world_empty =
             (Inr (''gen-1'' # []), emit (CreateGeneration ''5000'' ''a cat'' 1 None) world_empty)"
    by (subst create_with_retry_def, subst create_loop.simps)
       (simp add: MAX_RETRIES_def env_no_image_url_def env_ok_def Let_def)
  have q: "poll_result env_no_image_url ''gen-1'' = Inr None"
    by (simp add: env_no_image_url_def)
  have t: "\<not> truthy None" by simp
  from missing_image_url_is_unknown_error[OF v c q t]
  show ?thesis by (simp add: world_empty_def)
qed

subsection \<open>The viewer\<close>

lemma create_loop_viewer:
  "create_loop (e\<lparr>open_error := oe\<rparr>) M m p n k w = create_loop e M m p n k w"
proof (induction "M - k" arbitrary: k w)
  case 0
  then show ?case
    by (subst create_loop.simps[of "e\<lparr>open_error := oe\<rparr>"], subst create_loop.simps[of e]) simp
next
  case (Suc d)
  from Suc.hyps(2) have d: "d = M - Suc k" by simp
  show ?case
    by (subst create_loop.simps[of "e\<lparr>open_error := oe\<rparr>"], subst create_loop.simps[of e])
       (simp add: Let_def Suc.hyps(1)[OF d] split del: if_split cong: if_cong sum.case_cong)
qed

lemma fetch_loop_viewer:
  "fetch_loop (e\<lparr>open_error := oe\<rparr>) M url k resp w = fetch_loop e M url k resp w"
proof (induction "M - k" arbitrary: k w resp)
  case 0
  then show ?case
    by (subst fetch_loop.simps[of "e\<lparr>open_error := oe\<rparr>"], subst fetch_loop.simps[of e]) simp
next
  case (Suc d)
  from Suc.hyps(2) have d: "d = M - Suc k" by simp
  show ?case
    by (subst fetch_loop.simps[of "e\<lparr>open_error := oe\<rparr>"], subst fetch_loop.simps[of e])
       (simp add: Let_def Suc.hyps(1)[OF d] split del: if_split cong: if_cong sum.case_cong)
qed

lemma fetch_with_retry_viewer:
  "fetch_with_retry (e\<lparr>open_error := oe\<rparr>) M url w = fetch_with_retry e M url w"
  by (simp add: fetch_with_retry_def fetch_loop_viewer)

lemma processWebProjectPath_viewer:
  "processWebProjectPath (e\<lparr>open_error := oe\<rparr>) wp pt ap w = processWebProjectPath e wp pt ap w"
  by (simp add: processWebProjectPath_def Let_def cong: if_cong)

lemma resolve_filepath_viewer:
  "resolve_filepath (e\<lparr>open_error := oe\<rparr>) p m f op pb w = resolve_filepath e p m f op pb w"
  by (simp add: resolve_filepath_def STORAGE_DIR_def Let_def cong: if_cong)

lemma write_destination_viewer:
  "write_destination (e\<lparr>open_error := oe\<rparr>) filepath content w = write_destination e filepath content w"
  by (simp add: write_destination_def)

lemma toFile_viewer:
  "toFile (e\<lparr>open_error := oe\<rparr>) codec content filepath w = toFile e codec content filepath w"
  by (simp add: toFile_def)

lemma materialize_viewer:
  "materialize (e\<lparr>open_error := oe\<rparr>) f content filepath w = materialize e f content filepath w"
  by (simp add: materialize_def write_destination_viewer toFile_viewer cong: if_cong sum.case_cong)

lemma saveImage_body_viewer:
  "saveImage_body (e\<lparr>open_error := oe\<rparr>) url p m f op wp pt ap w =
   saveImage_body e url p m f op wp pt ap w"
  by (simp add: saveImage_body_def fetch_with_retry_viewer processWebProjectPath_viewer
        resolve_filepath_viewer materialize_viewer
        cong: if_cong prod.case_cong sum.case_cong option.case_cong)

lemma saveImage_viewer:
  "saveImage (e\<lparr>open_error := oe\<rparr>) url p m f op wp pt ap w = saveImage e url p m f op wp pt ap w"
  by (simp add: saveImage_def saveImage_body_viewer Let_def cong: if_cong)

lemma create_with_retry_viewer:
  "create_with_retry (e\<lparr>open_error := oe\<rparr>) M m p n w = create_with_retry e M m p n w"
  by (simp add: create_with_retry_def create_loop_viewer)

lemma run_generation_viewer:
  "fst (run_generation (e\<lparr>open_error := oe\<rparr>) a p m f n w) = fst (run_generation e a p m f n w)"
  by (simp add: run_generation_def create_with_retry_viewer saveImage_viewer Let_def
           split: prod.splits sum.splits list.splits option.splits)

lemma generate_image_ignores_viewer_failure:
  "fst (generate_image (e\<lparr>open_error := oe\<rparr>) a w) = fst (generate_image e a w)"
proof (cases "validate_request a")
  case (Inl err)
  then show ?thesis by (simp add: generate_image_def)
next
  case (Inr t)
  obtain p m f n where t: "t = (p, m, f, n)" by (cases t) auto
  from run_generation_viewer[where e = e and oe = oe and a = a and p = p and m = m and f = f
         and n = n and w = w] Inr t show ?thesis
    by (cases "run_generation (e\<lparr>open_error := oe\<rparr>) a p m f n w";
        cases "run_generation e a p m f n w")
       (auto simp: generate_image_def split: sum.splits)
qed

text \<open>
  C9. In \<open>view_image\<close> the claim fails: the viewer is opened outside the inner \<open>try\<close>, so for
  a stored file whose viewer cannot be started the tool answers with an error of the kind
  \<open>UNKNOWN_ERROR\<close>. (In \<open>generate_image\<close> the same failure is only a warning, as the lemma
  above says.)
\<close>

theorem viewer_failure_fails_view_image:
  assumes "filename \<noteq> []"
      and "access_ok e (path_join [STORAGE_DIR e, filename])"
      and "open_error e (path_join [STORAGE_DIR e, filename]) = Some err"
  shows "fst (view_image e (Some filename) w) =
           ErrorResponse \<lparr>etype = UNKNOWN_ERROR, message = view_error_message err\<rparr> \<and>
         is_failure (fst (view_image e (Some filename) w))"
  using assms by (simp add: view_image_def Let_def)

theorem viewer_failure_fails_view_image_witness:
  "fst (view_image env_viewer_fails (Some ''logo.png'') world_empty) =
     ErrorResponse \<lparr>etype = UNKNOWN_ERROR,
                    message = ''Error viewing image: spawn xdg-open ENOENT''\<rparr> \<and>
   is_failure (fst (view_image env_viewer_fails (Some ''logo.png'') world_empty))"
proof -
  have n: "''logo.png'' \<noteq> []" by simp
  have a: "access_ok env_viewer_fails (path_join [STORAGE_DIR env_viewer_fails, ''logo.png''])"
    by (simp add: env_viewer_fails_def env_ok_def)
  have b: "open_error env_viewer_fails (path_join [STORAGE_DIR env_viewer_fails, ''logo.png'']) =
             Some (Error ''spawn xdg-open ENOENT'')"
    by (simp add: env_viewer_fails_def)
  from viewer_failure_fails_view_image[OF n a b, of world_empty] show ?thesis by simp
qed

subsection \<open>Writing the file\<close>

lemma files_emit [simp]: "files (emit ev w) = files w"
  by (simp add: emit_def)

lemma files_processWebProjectPath:
  "files (snd (processWebProjectPath e wp pt ap w)) = files w"
  by (simp add: processWebProjectPath_def Let_def split: option.splits)

lemma files_resolve_filepath:
  "files (snd (resolve_filepath e p m f op pb w)) = files w"
  by (simp add: resolve_filepath_def Let_def split: prod.splits option.splits)

lemma files_fetch_loop: "files (snd (fetch_loop e M url k resp w)) = files w"
proof (induction "M - k" arbitrary: k w resp)
  case 0
  then show ?case by (subst fetch_loop.simps) simp
next
  case (Suc d)
  from Suc.hyps(2) have d: "d = M - Suc k" by simp
  have s1: "files (snd (fetch_loop e M url (Suc k) resp'
              (emit (Sleep dl) (emit (FetchUrl url) w)))) = files w" for resp' dl
    using Suc.hyps(1)[OF d, of resp' "emit (Sleep dl) (emit (FetchUrl url) w)"] by simp
  show ?case
    by (subst fetch_loop.simps) (auto simp: Let_def s1 split: sum.splits)
qed

lemma files_fetch_with_retry: "files (snd (fetch_with_retry e M url w)) = files w"
  by (simp add: snd_fetch_with_retry files_fetch_loop)

lemma files_saveImage_prepare:
  "files (snd (saveImage_prepare e url p m f op wp pt ap w)) = files w"
proof -
  obtain pb w1 where a: "(if truthy wp then processWebProjectPath e wp pt ap w else (None, w)) = (pb, w1)"
    by (cases "if truthy wp then processWebProjectPath e wp pt ap w else (None, w)") auto
  then have f1: "files w1 = files w"
    using files_processWebProjectPath[of e wp pt ap w] by (auto split: if_splits)
  obtain r2 w2 where b: "resolve_filepath e p m f op pb w1 = (r2, w2)"
    by (cases "resolve_filepath e p m f op pb w1") auto
  then have f2: "files w2 = files w1" using files_resolve_filepath[of e p m f op pb w1] by simp
  obtain r3 w3 where c: "fetch_with_retry e MAX_RETRIES url w2 = (r3, w3)"
    by (cases "fetch_with_retry e MAX_RETRIES url w2") auto
  then have f3: "files w3 = files w2" using files_fetch_with_retry[of e MAX_RETRIES url w2] by simp
  from a b c f1 f2 f3 show ?thesis
    by (simp add: saveImage_prepare_def split: sum.splits)
qed

lemma saveImage_body_prepare:
  "saveImage_body e url p m f op wp pt ap w =
     (case saveImage_prepare e url p m f op wp pt ap w of
        (Inl err, w3) \<Rightarrow> (Inl err, w3)
      | (Inr (filepath, content), w3) \<Rightarrow>
          (case materialize e f content filepath w3 of
             (Some err, w4) \<Rightarrow> (Inl err, w4)
           | (None, w4) \<Rightarrow> (Inr filepath, w4)))"
  by (simp add: saveImage_body_def saveImage_prepare_def split: prod.splits sum.splits)

lemma supported_cases:
  assumes "fmt \<in> set supportedFormats"
  obtains "fmt = ''svg''" | "fmt = ''png''" | "fmt = ''jpg''" | "fmt = ''jpeg''" | "fmt = ''webp''"
  using assms unfolding supportedFormats_def by auto

lemma materialize_svg:
  "materialize e ''svg'' content dest w =
     (case svgo_optimize e content of
        Inl err \<Rightarrow> (Some err, w)
      | Inr optimized \<Rightarrow> write_destination e dest optimized w)"
  by (simp add: materialize_def)

lemma materialize_raster:
  assumes "fmt \<in> set supportedFormats" "fmt \<noteq> ''svg''"
  shows "materialize e fmt content dest w =
           (case toFile e (codec_of fmt) content dest w of
              (None, w') \<Rightarrow> (None, w')
            | (Some err, w') \<Rightarrow>
                (Some (Error (''Image processing failed: '' @ error_message err)), w'))"
  using assms(1)
proof (cases rule: supported_cases)
  case 1
  with assms(2) show ?thesis by simp
next
  case 2
  then show ?thesis by (simp add: materialize_def codec_of_def)
next
  case 3
  then show ?thesis by (simp add: materialize_def codec_of_def)
next
  case 4
  then show ?thesis by (simp add: materialize_def codec_of_def)
next
  case 5
  then show ?thesis by (simp add: materialize_def codec_of_def)
qed

lemma saveImage_after_prepare:
  assumes "toLowerCase f0 = f" "f \<in> set supportedFormats" "validateModelFormatCompatibility m f"
      and "saveImage_prepare e url p m f op wp pt ap w = (Inr (dest, content), w3)"
  shows "saveImage e url p m f0 op wp pt ap w =
           (case materialize e f content dest w3 of
              (Some err, w4) \<Rightarrow> (Inl (Error (''Failed to save image: '' @ error_message err)), w4)
            | (None, w4) \<Rightarrow> (Inr dest, w4))"
    and "files w3 = files w"
proof -
  from assms show "saveImage e url p m f0 op wp pt ap w =
           (case materialize e f content dest w3 of
              (Some err, w4) \<Rightarrow> (Inl (Error (''Failed to save image: '' @ error_message err)), w4)
            | (None, w4) \<Rightarrow> (Inr dest, w4))"
    by (simp add: saveImage_def Let_def saveImage_body_prepare split: prod.splits option.splits)
  from files_saveImage_prepare[of e url p m f op wp pt ap w] assms(4)
  show "files w3 = files w" by simp
qed

text \<open>
  C6, as stated, fails: when the device fails during the write of an SVG, \<open>saveImage\<close> fails
  and the first bytes of the image stay at the file path.
\<close>

theorem partial_file_counterexample:
  "fst (saveImage env_disk_full ''https://cdn.example/img'' ''a logo'' ''8000'' ''svg''
          None None None None world_empty) =
     Inl (Error ''Failed to save image: ENOSPC: no space left on device, write'') \<and>
   files (snd (saveImage env_disk_full ''https://cdn.example/img'' ''a logo'' ''8000'' ''svg''
                 None None None None world_empty))
     ''/app/images/2025-01-02T03-04-05-678Z_8000_a_logo.svg'' = Some ''<s'' \<and>
   svgo_optimize env_disk_full ''<svg/>'' = Inr ''<svg/>''"
  by code_simp

text \<open>
  C6 (amended). \<open>saveImage\<close> writes to the file path itself and changes no other file. For
  SVG the optimized image is written with \<open>fs.writeFile\<close>: without a fault the file holds all
  of it; under a fault \<open>saveImage\<close> fails and the file holds the bytes written before the
  fault; when the optimizer fails, no file changes. For a raster format the image library's
  one call \<open>toFile\<close> writes the file: when it succeeds the file holds the encoded image; when
  it fails \<open>saveImage\<close> fails and the files are as that call left them, \<open>saveImage\<close>
  neither removes nor restores the file.
\<close>

theorem saveImage_writes_destination_in_place:
  assumes "toLowerCase f0 = f" and "f \<in> set supportedFormats"
      and "validateModelFormatCompatibility m f"
      and "saveImage_prepare e url p m f op wp pt ap w = (Inr (dest, content), w3)"
  shows "(f = ''svg'' \<and> svgo_optimize e content = Inr data \<and> write_fault e = None \<longrightarrow>
            fst (saveImage e url p m f0 op wp pt ap w) = Inr dest \<and>
            files (snd (saveImage e url p m f0 op wp pt ap w)) = (files w)(dest \<mapsto> data)) \<and>
         (f = ''svg'' \<and> svgo_optimize e content = Inr data \<and> write_fault e = Some (k, err) \<longrightarrow>
            fst (saveImage e url p m f0 op wp pt ap w) =
              Inl (Error (''Failed to save image: '' @ error_message err)) \<and>
            files (snd (saveImage e url p m f0 op wp pt ap w)) = (files w)(dest \<mapsto> take k data)) \<and>
         (f = ''svg'' \<and> svgo_optimize e content = Inl err \<longrightarrow>
            fst (saveImage e url p m f0 op wp pt ap w) =
              Inl (Error (''Failed to save image: '' @ error_message err)) \<and>
            files (snd (saveImage e url p m f0 op wp pt ap w)) = files w) \<and>
         (f \<noteq> ''svg'' \<and> sharp_toFile e (codec_of f) content dest = ToFileOk data \<longrightarrow>
            fst (saveImage e url p m f0 op wp pt ap w) = Inr dest \<and>
            files (snd (saveImage e url p m f0 op wp pt ap w)) = (files w)(dest \<mapsto> data)) \<and>
         (f \<noteq> ''svg'' \<and> sharp_toFile e (codec_of f) content dest = ToFileFailed err left \<longrightarrow>
            fst (saveImage e url p m f0 op wp pt ap w) =
              Inl (Error (''Failed to save image: Image processing failed: '' @ error_message err)) \<and>
            files (snd (saveImage e url p m f0 op wp pt ap w)) = after_failure left dest (files w))"
proof -
  note s = saveImage_after_prepare[OF assms]
  have svg_ok: "f = ''svg'' \<and> svgo_optimize e content = Inr data \<and> write_fault e = None \<longrightarrow>
        fst (saveImage e url p m f0 op wp pt ap w) = Inr dest \<and>
        files (snd (saveImage e url p m f0 op wp pt ap w)) = (files w)(dest \<mapsto> data)"
    using s by (simp add: materialize_svg write_destination_def Let_def)
  have svg_fault: "f = ''svg'' \<and> svgo_optimize e content = Inr data \<and> write_fault e = Some (k, err) \<longrightarrow>
        fst (saveImage e url p m f0 op wp pt ap w) =
          Inl (Error (''Failed to save image: '' @ error_message err)) \<and>
        files (snd (saveImage e url p m f0 op wp pt ap w)) = (files w)(dest \<mapsto> take k data)"
    using s by (simp add: materialize_svg write_destination_def Let_def)
  have svg_bad: "f = ''svg'' \<and> svgo_optimize e content = Inl err \<longrightarrow>
        fst (saveImage e url p m f0 op wp pt ap w) =
          Inl (Error (''Failed to save image: '' @ error_message err)) \<and>
        files (snd (saveImage e url p m f0 op wp pt ap w)) = files w"
    using s by (simp add: materialize_svg)
  have raster: "materialize e f content dest w3 =
           (case toFile e (codec_of f) content dest w3 of
              (None, w') \<Rightarrow> (None, w')
            | (Some err, w') \<Rightarrow>
                (Some (Error (''Image processing failed: '' @ error_message err)), w'))"
    if "f \<noteq> ''svg''"
    using that by (rule materialize_raster[OF assms(2)])
  have raster_ok: "f \<noteq> ''svg'' \<and> sharp_toFile e (codec_of f) content dest = ToFileOk data \<longrightarrow>
        fst (saveImage e url p m f0 op wp pt ap w) = Inr dest \<and>
        files (snd (saveImage e url p m f0 op wp pt ap w)) = (files w)(dest \<mapsto> data)"
    using s raster by (simp add: toFile_def Let_def)
  have raster_bad: "f \<noteq> ''svg'' \<and> sharp_toFile e (codec_of f) content dest = ToFileFailed err left \<longrightarrow>
        fst (saveImage e url p m f0 op wp pt ap w) =
          Inl (Error (''Failed to save image: Image processing failed: '' @ error_message err)) \<and>
        files (snd (saveImage e url p m f0 op wp pt ap w)) = after_failure left dest (files w)"
    using s raster by (simp add: toFile_def Let_def)
  show ?thesis
    by (rule conjI[OF svg_ok conjI[OF svg_fault conjI[OF svg_bad conjI[OF raster_ok raster_bad]]]])
qed

theorem saveImage_writes_destination_in_place_witness:
  "fst (saveImage env_disk_full ''https://cdn.example/img'' ''a logo'' ''8000'' ''svg''
          (Some ''out/logo.svg'') None None None world_empty) =
     Inl (Error ''Failed to save image: ENOSPC: no space left on device, write'') \<and>
   files (snd (saveImage env_disk_full ''https://cdn.example/img'' ''a logo'' ''8000'' ''svg''
                 (Some ''out/logo.svg'') None None None world_empty)) =
     (files world_empty)(''out/logo.svg'' \<mapsto> ''<s'') \<and>
   fst (saveImage env_encoder_fails ''https://cdn.example/img'' ''a cat'' ''5000'' ''png''
          (Some ''out/cat.png'') None None None world_empty) =
     Inl (Error ''Failed to save image: Image processing failed: Input buffer contains unsupported image format'') \<and>
   files (snd (saveImage env_encoder_fails ''https://cdn.example/img'' ''a cat'' ''5000'' ''png''
                 (Some ''out/cat.png'') None None None world_empty)) = files world_empty"
proof -
  let ?u = "''https://cdn.example/img''"
  have l1: "toLowerCase ''svg'' = ''svg''" and l2: "toLowerCase ''png'' = ''png''" by code_simp+
  have s1: "''svg'' \<in> set supportedFormats" and s2: "''png'' \<in> set supportedFormats"
    by (simp_all add: supportedFormats_def)
  have v1: "validateModelFormatCompatibility ''8000'' ''svg''"
    and v2: "validateModelFormatCompatibility ''5000'' ''png''" by code_simp+
  have f1: "fst (saveImage_prepare env_disk_full ?u ''a logo'' ''8000'' ''svg''
                   (Some ''out/logo.svg'') None None None world_empty) =
              Inr (''out/logo.svg'', ''<svg/>'')" by code_simp
  have f2: "fst (saveImage_prepare env_encoder_fails ?u ''a cat'' ''5000'' ''png''
                   (Some ''out/cat.png'') None None None world_empty) =
              Inr (''out/cat.png'', ''<svg/>'')" by code_simp
  have p1: "saveImage_prepare env_disk_full ?u ''a logo'' ''8000'' ''svg''
              (Some ''out/logo.svg'') None None None world_empty =
            (Inr (''out/logo.svg'', ''<svg/>''),
             snd (saveImage_prepare env_disk_full ?u ''a logo'' ''8000'' ''svg''
                    (Some ''out/logo.svg'') None None None world_empty))"
    using f1 by (simp add: prod_eq_iff)
  have p2: "saveImage_prepare env_encoder_fails ?u ''a cat'' ''5000'' ''png''
              (Some ''out/cat.png'') None None None world_empty =
            (Inr (''out/cat.png'', ''<svg/>''),
             snd (saveImage_prepare env_encoder_fails ?u ''a cat'' ''5000'' ''png''
                    (Some ''out/cat.png'') None None None world_empty))"
    using f2 by (simp add: prod_eq_iff)
  have h1: "''svg'' = ''svg'' \<and> svgo_optimize env_disk_full ''<svg/>'' = Inr ''<svg/>'' \<and>
            write_fault env_disk_full = Some (2, Error ''ENOSPC: no space left on device, write'')"
    by (simp add: env_disk_full_def env_ok_def)
  have h2: "''png'' \<noteq> ''svg'' \<and>
            sharp_toFile env_encoder_fails (codec_of ''png'') ''<svg/>'' ''out/cat.png'' =
              ToFileFailed (Error ''Input buffer contains unsupported image format'') Untouched"
    by (simp add: env_encoder_fails_def)
  note A = saveImage_writes_destination_in_place[OF l1 s1 v1 p1, where data = "''<svg/>''"
             and k = 2 and err = "Error ''ENOSPC: no space left on device, write''"]
  note B = saveImage_writes_destination_in_place[OF l2 s2 v2 p2,
             where err = "Error ''Input buffer contains unsupported image format''"
             and left = Untouched]
  from mp[OF conjunct1[OF conjunct2[OF A]] h1]
       mp[OF conjunct2[OF conjunct2[OF conjunct2[OF conjunct2[OF B]]]] h2]
  show ?thesis by simp
qed

subsection \<open>Repeat requests\<close>

lemma split_on_nonempty: "split_on d s \<noteq> []"
  by (induction s) (auto split: list.splits)

lemma split_on_no_sep: "d \<notin> set s \<Longrightarrow> split_on d s = [s]"
  by (induction s) auto

lemma split_on_append: "split_on d (xs @ d # ys) = split_on d xs @ split_on d ys"
proof (induction xs)
  case Nil
  then show ?case by simp
next
  case (Cons x xs)
  then show ?case
    using split_on_nonempty[of d xs] by (cases "split_on d xs") auto
qed

lemma norm_segs_snoc:
  assumes "name \<noteq> []" "name \<noteq> ''.''" "name \<noteq> ''..''"
  shows "norm_segs a (xs @ [name]) st = norm_segs a xs st @ [name]"
  using assms by (induction xs arbitrary: st) (auto split: list.splits)

lemma join_with_snoc:
  "join_with sep (ys @ [x]) = (if ys = [] then x else join_with sep ys @ sep @ x)"
  by (induction sep ys rule: join_with.induct) auto

lemma path_join_dir_file:
  assumes dir: "dir \<noteq> []"
      and name: "name \<noteq> []" "name \<noteq> ''.''" "name \<noteq> ''..''" "CHR ''/'' \<notin> set name"
  shows "path_join [dir, name] = dir_prefix dir @ name"
proof -
  let ?p = "dir @ CHR ''/'' # name"
  have hd: "hd ?p = hd dir" using dir by simp
  have inset: "last name \<in> set name" using name(1) by (rule last_in_set)
  have "last name \<noteq> CHR ''/''"
  proof
    assume "last name = CHR ''/''"
    with inset have "CHR ''/'' \<in> set name" by simp
    with name(4) show False by simp
  qed
  then have last: "last ?p \<noteq> CHR ''/''" using name(1) by simp
  have split: "split_on CHR ''/'' ?p = split_on CHR ''/'' dir @ [name]"
    using name(4) by (simp add: split_on_append split_on_no_sep)
  have segs: "norm_segs a (split_on CHR ''/'' ?p) [] = norm_segs a (split_on CHR ''/'' dir) [] @ [name]" for a
    unfolding split by (rule norm_segs_snoc[OF name(1,2,3)])
  have res: "join_with ''/'' (norm_segs a (split_on CHR ''/'' ?p) []) \<noteq> []" for a
    unfolding segs using name(1) by (simp add: join_with_snoc)
  have "path_join [dir, name] = path_normalize ?p"
    using dir name(1) by (simp add: path_join_def)
  also have "\<dots> = dir_prefix dir @ name"
    using hd last res segs
    by (simp add: path_normalize_def dir_prefix_def Let_def join_with_snoc)
  finally show ?thesis .
qed

lemma path_normalize_nonempty: "path_normalize p \<noteq> []"
  by (simp add: path_normalize_def Let_def)

lemma path_join_nonempty: "path_join args \<noteq> []"
  by (simp add: path_join_def Let_def path_normalize_nonempty)

lemma STORAGE_DIR_nonempty: "STORAGE_DIR e \<noteq> []"
  unfolding STORAGE_DIR_def by (rule path_join_nonempty)

lemma digit_not_colon_dot: "is_digit c \<Longrightarrow> c \<noteq> CHR '':'' \<and> c \<noteq> CHR ''.''"
  by (auto simp: is_digit_def)

lemma zero_is_digit: "is_digit (CHR ''0'')"
  by (simp add: is_digit_def)

lemma stamp_char_inj:
  assumes shape: "(if is_digit x then CHR ''0'' else x) = (if is_digit y then CHR ''0'' else y)"
      and stamp: "(if x = CHR '':'' \<or> x = CHR ''.'' then CHR ''-'' else x) =
                  (if y = CHR '':'' \<or> y = CHR ''.'' then CHR ''-'' else y)"
  shows "x = y"
proof (cases "is_digit x")
  case x: True
  show ?thesis
  proof (cases "is_digit y")
    case True
    from stamp digit_not_colon_dot[OF x] digit_not_colon_dot[OF True] show ?thesis by simp
  next
    case False
    with shape x have "y = CHR ''0''" by simp
    with zero_is_digit False show ?thesis by simp
  qed
next
  case x: False
  show ?thesis
  proof (cases "is_digit y")
    case True
    with shape x have "x = CHR ''0''" by simp
    with zero_is_digit x show ?thesis by simp
  next
    case False
    with shape x show ?thesis by simp
  qed
qed

lemma timestamp_of_inj:
  "iso_shape a = iso_shape b \<Longrightarrow> timestamp_of a = timestamp_of b \<Longrightarrow> a = b"
proof (induction a arbitrary: b)
  case Nil
  then show ?case by (simp add: iso_shape_def)
next
  case (Cons x xs)
  then obtain y ys where b: "b = y # ys" by (cases b) (auto simp: iso_shape_def)
  from Cons.prems b
  have s1: "(if is_digit x then CHR ''0'' else x) = (if is_digit y then CHR ''0'' else y)"
    and s2: "(if x = CHR '':'' \<or> x = CHR ''.'' then CHR ''-'' else x) =
             (if y = CHR '':'' \<or> y = CHR ''.'' then CHR ''-'' else y)"
    and t1: "iso_shape xs = iso_shape ys"
    and t2: "timestamp_of xs = timestamp_of ys"
    by (simp_all add: iso_shape_def timestamp_of_def)
  have "x = y" using s1 s2 by (rule stamp_char_inj)
  moreover have "xs = ys" using t1 t2 by (rule Cons.IH)
  ultimately show ?case using b by simp
qed

lemma slash_not_in_pattern: "CHR ''/'' \<notin> set iso_pattern"
  by (simp add: iso_pattern_def)

lemma timestamp_of_no_slash:
  assumes "iso_shape t = iso_pattern"
  shows "CHR ''/'' \<notin> set (timestamp_of t)"
proof
  assume "CHR ''/'' \<in> set (timestamp_of t)"
  then obtain c where c: "c \<in> set t"
      and eq: "(if c = CHR '':'' \<or> c = CHR ''.'' then CHR ''-'' else c) = CHR ''/''"
    by (auto simp: timestamp_of_def)
  then have "c = CHR ''/''" by (auto split: if_splits)
  moreover have "\<not> is_digit (CHR ''/'')" by (simp add: is_digit_def)
  ultimately have "CHR ''/'' \<in> set (iso_shape t)"
    using c by (force simp: iso_shape_def)
  with assms slash_not_in_pattern show False by simp
qed

lemma toLowerChar_not_slash: "x \<noteq> CHR ''/'' \<Longrightarrow> toLowerChar x \<noteq> CHR ''/''"
proof -
  assume x: "x \<noteq> CHR ''/''"
  show ?thesis
  proof (cases "is_upper x")
    case True
    then have "of_char (toLowerChar x) = (of_char x :: nat) + 32"
      by (simp add: toLowerChar_def is_upper_def of_char_of)
    with True show ?thesis by (auto simp: is_upper_def)
  next
    case False
    with x show ?thesis by (simp add: toLowerChar_def)
  qed
qed

lemma sanitize_prompt_no_slash: "CHR ''/'' \<notin> set (sanitize_prompt p)"
proof
  assume "CHR ''/'' \<in> set (sanitize_prompt p)"
  then obtain c where low: "toLowerChar (if is_alnum c then c else CHR ''_'') = CHR ''/''"
    by (auto simp: sanitize_prompt_def toLowerCase_def)
  have na: "\<not> is_alnum (CHR ''/'')"
    by (simp add: is_alnum_def is_lower_def is_upper_def is_digit_def)
  have "(if is_alnum c then c else CHR ''_'') \<noteq> CHR ''/''"
  proof (cases "is_alnum c")
    case True
    with na have "c \<noteq> CHR ''/''" by auto
    with True show ?thesis by simp
  next
    case False
    then show ?thesis by simp
  qed
  from toLowerChar_not_slash[OF this] low show False by simp
qed

lemma default_name_ok:
  assumes "iso_shape t = iso_pattern" "CHR ''/'' \<notin> set m" "CHR ''/'' \<notin> set f"
  shows "CHR ''/'' \<notin> set (timestamp_of t @ ''_'' @ m @ ''_'' @ sanitize_prompt p @ ''.'' @ f)"
    and "timestamp_of t @ ''_'' @ m @ ''_'' @ sanitize_prompt p @ ''.'' @ f \<noteq> []"
    and "timestamp_of t @ ''_'' @ m @ ''_'' @ sanitize_prompt p @ ''.'' @ f \<noteq> ''.''"
    and "timestamp_of t @ ''_'' @ m @ ''_'' @ sanitize_prompt p @ ''.'' @ f \<noteq> ''..''"
proof -
  let ?n = "timestamp_of t @ ''_'' @ m @ ''_'' @ sanitize_prompt p @ ''.'' @ f"
  show "CHR ''/'' \<notin> set ?n"
    using timestamp_of_no_slash[OF assms(1)] assms(2,3) sanitize_prompt_no_slash[of p] by simp
  have u: "CHR ''_'' \<in> set ?n" by simp
  show "?n \<noteq> []" by simp
  show "?n \<noteq> ''.''"
  proof
    assume "?n = ''.''"
    with u have "CHR ''_'' \<in> set ''.''" by simp
    then show False by simp
  qed
  show "?n \<noteq> ''..''"
  proof
    assume "?n = ''..''"
    with u have "CHR ''_'' \<in> set ''..''" by simp
    then show False by simp
  qed
qed

lemma fst_processWebProjectPath_world:
  "fst (processWebProjectPath e wp pt ap w) = fst (processWebProjectPath e wp pt ap w')"
  by (simp add: processWebProjectPath_def Let_def split: option.splits)

lemma project_base_path:
  "(if truthy wp then processWebProjectPath e wp pt ap w else (None, w)) =
     processWebProjectPath e wp pt ap w"
  by (simp add: processWebProjectPath_def)

lemma truthy_or_default: "truthy b \<Longrightarrow> or_default b d \<noteq> []"
  by (cases b) auto

lemma processWebProjectPath_nonempty:
  assumes "fst (processWebProjectPath e wp pt ap w) = Some d"
  shows "d \<noteq> []"
proof -
  from assms have t: "truthy wp" by (auto simp: processWebProjectPath_def split: if_splits)
  from assms t show ?thesis
    using path_join_nonempty truthy_or_default[OF t, of "[]"]
    by (auto simp: processWebProjectPath_def Let_def split: if_splits option.splits)
qed

lemma processWebProjectPath_same:
  assumes "fst (processWebProjectPath e1 wp pt ap w) = Some d1"
      and "fst (processWebProjectPath e2 wp pt ap w') = Some d2"
  shows "d1 = d2"
proof -
  from assms(1) have t: "truthy wp" by (auto simp: processWebProjectPath_def split: if_splits)
  from assms t show ?thesis
    by (simp add: processWebProjectPath_def Let_def split: if_splits option.splits)
qed

lemma fst_resolve_filepath_world:
  "fst (resolve_filepath e p m f op pb w) = fst (resolve_filepath e p m f op pb w')"
  by (simp add: resolve_filepath_def Let_def split: prod.splits option.splits)

lemma resolve_explicit:
  assumes "truthy op" "fst (resolve_filepath e p m f op pb w) = Inr path"
  shows "path = fst (explicit_filepath (or_default op []) f)"
  using assms by (auto simp: resolve_filepath_def Let_def split: prod.splits option.splits)

lemma resolve_project:
  assumes "\<not> truthy op" "d \<noteq> []"
  shows "fst (resolve_filepath e p m f op (Some d) w) =
           Inr (path_join [d, sanitize_prompt p @ ''_'' @ m @ ''.'' @ f])"
  using assms by (simp add: resolve_filepath_def Let_def)

lemma resolve_default:
  assumes "\<not> truthy op"
      and "iso_shape (now_iso e) = iso_pattern" "CHR ''/'' \<notin> set m" "CHR ''/'' \<notin> set f"
  shows "fst (resolve_filepath e p m f op None w) =
           Inr (dir_prefix (STORAGE_DIR e) @
                timestamp_of (now_iso e) @ ''_'' @ m @ ''_'' @ sanitize_prompt p @ ''.'' @ f)"
proof -
  note n = default_name_ok[OF assms(2,3,4), of p]
  from path_join_dir_file[OF STORAGE_DIR_nonempty[of e] n(2) n(3) n(4) n(1)] assms(1)
  show ?thesis by (simp add: resolve_filepath_def Let_def)
qed

lemma prepare_path:
  assumes "saveImage_prepare e url p m f op wp pt ap w = (Inr (path, content), w3)"
  shows "fst (resolve_filepath e p m f op (fst (processWebProjectPath e wp pt ap w)) w) = Inr path"
proof -
  obtain pb w1 where a: "processWebProjectPath e wp pt ap w = (pb, w1)"
    by (cases "processWebProjectPath e wp pt ap w") auto
  from assms a have "fst (resolve_filepath e p m f op pb w1) = Inr path"
    by (simp add: saveImage_prepare_def project_base_path split: prod.splits sum.splits)
  with fst_resolve_filepath_world[of e p m f op pb w1 w] a show ?thesis by simp
qed

lemma supported_no_slash: "f \<in> set supportedFormats \<Longrightarrow> CHR ''/'' \<notin> set f"
  by (auto simp: supportedFormats_def)

lemma materialize_written:
  assumes "f \<in> set supportedFormats" "materialize e f content dest w = (None, w')"
  shows "\<exists>data. written_data e f content dest = Some data \<and> files w' = (files w)(dest \<mapsto> data)"
proof (cases "f = ''svg''")
  case True
  with assms(2) show ?thesis
    by (auto simp: materialize_svg written_data_def write_destination_def Let_def
             split: sum.splits option.splits)
next
  case False
  from assms(2) materialize_raster[OF assms(1) False, of e content dest w] False show ?thesis
    by (auto simp: written_data_def toFile_def Let_def split: toFile_outcome.splits)
qed

lemma saveImage_success:
  assumes "saveImage e url p m f0 op wp pt ap w = (Inr path, w')"
  shows "toLowerCase f0 \<in> set supportedFormats"
    and "\<exists>content w3 data.
           saveImage_prepare e url p m (toLowerCase f0) op wp pt ap w = (Inr (path, content), w3) \<and>
           written_data e (toLowerCase f0) content path = Some data \<and>
           files w' = (files w)(path \<mapsto> data)"
proof -
  let ?f = "toLowerCase f0"
  from assms show sup: "?f \<in> set supportedFormats"
    by (simp add: saveImage_def Let_def split: if_splits)
  from assms have comp: "validateModelFormatCompatibility m ?f"
    by (simp add: saveImage_def Let_def split: if_splits)
  obtain r w3 where pr: "saveImage_prepare e url p m ?f op wp pt ap w = (r, w3)"
    by (cases "saveImage_prepare e url p m ?f op wp pt ap w") auto
  show "\<exists>content w3 data.
           saveImage_prepare e url p m ?f op wp pt ap w = (Inr (path, content), w3) \<and>
           written_data e ?f content path = Some data \<and>
           files w' = (files w)(path \<mapsto> data)"
  proof (cases r)
    case (Inl err)
    with assms sup comp pr show ?thesis
      by (simp add: saveImage_def Let_def saveImage_body_prepare)
  next
    case (Inr pc)
    obtain dest content where pc: "pc = (dest, content)" by (cases pc) auto
    from pr Inr pc
    have pr': "saveImage_prepare e url p m ?f op wp pt ap w = (Inr (dest, content), w3)" by simp
    note s = saveImage_after_prepare[OF refl sup comp pr']
    obtain r4 w4 where mt: "materialize e ?f content dest w3 = (r4, w4)"
      by (cases "materialize e ?f content dest w3") auto
    from s(1) mt assms have r4: "r4 = None" and d: "dest = path" and w4: "w4 = w'"
      by (auto split: option.splits)
    from mt r4 w4 have mt': "materialize e ?f content dest w3 = (None, w')" by simp
    from materialize_written[OF sup mt'] obtain data
      where wd: "written_data e ?f content dest = Some data"
        and fl: "files w' = (files w3)(dest \<mapsto> data)" by auto
    from pr' d wd fl s(2) show ?thesis by auto
  qed
qed

lemma default_paths_differ:
  assumes r1: "fst (resolve_filepath e1 p1 m1 f1 op1 None w) = Inr path1"
      and r2: "fst (resolve_filepath e2 p2 m2 f2 op2 None w') = Inr path2"
      and op: "\<not> truthy op1" "\<not> truthy op2"
      and dir: "module_dirname e1 = module_dirname e2"
      and sh: "iso_shape (now_iso e1) = iso_pattern" "iso_shape (now_iso e2) = iso_pattern"
      and ne: "now_iso e1 \<noteq> now_iso e2"
      and m: "CHR ''/'' \<notin> set m1" "CHR ''/'' \<notin> set m2"
      and f: "CHR ''/'' \<notin> set f1" "CHR ''/'' \<notin> set f2"
  shows "path2 \<noteq> path1"
proof
  assume eq: "path2 = path1"
  have sd: "STORAGE_DIR e1 = STORAGE_DIR e2" using dir by (simp add: STORAGE_DIR_def)
  have len: "length (timestamp_of (now_iso e1)) = length (timestamp_of (now_iso e2))"
  proof -
    have "length (iso_shape (now_iso e1)) = length (iso_shape (now_iso e2))" using sh by simp
    then show ?thesis by (simp add: iso_shape_def timestamp_of_def)
  qed
  from r1 resolve_default[OF op(1) sh(1) m(1) f(1), of p1 w]
  have a: "path1 = dir_prefix (STORAGE_DIR e1) @
             timestamp_of (now_iso e1) @ ''_'' @ m1 @ ''_'' @ sanitize_prompt p1 @ ''.'' @ f1"
    by simp
  from r2 resolve_default[OF op(2) sh(2) m(2) f(2), of p2 w']
  have b: "path2 = dir_prefix (STORAGE_DIR e2) @
             timestamp_of (now_iso e2) @ ''_'' @ m2 @ ''_'' @ sanitize_prompt p2 @ ''.'' @ f2"
    by simp
  from eq a b sd
  have "timestamp_of (now_iso e1) @ ''_'' @ m1 @ ''_'' @ sanitize_prompt p1 @ ''.'' @ f1 =
        timestamp_of (now_iso e2) @ ''_'' @ m2 @ ''_'' @ sanitize_prompt p2 @ ''.'' @ f2"
    by simp
  with len have "timestamp_of (now_iso e1) = timestamp_of (now_iso e2)" by simp
  with sh have "now_iso e1 = now_iso e2" by (simp add: timestamp_of_inj)
  with ne show False by simp
qed

lemma chosen_paths_agree:
  assumes r1: "fst (resolve_filepath e1 p m f op (fst (processWebProjectPath e1 wp pt ap w)) w) = Inr path1"
      and r2: "fst (resolve_filepath e2 p m f op (fst (processWebProjectPath e2 wp pt ap w')) w') = Inr path2"
      and ch: "truthy op \<or> (fst (processWebProjectPath e1 wp pt ap w) \<noteq> None \<and>
                             fst (processWebProjectPath e2 wp pt ap w') \<noteq> None)"
  shows "path2 = path1"
proof (cases "truthy op")
  case True
  from resolve_explicit[OF True r1] resolve_explicit[OF True r2] show ?thesis by simp
next
  case False
  with ch obtain d1 d2 where d1: "fst (processWebProjectPath e1 wp pt ap w) = Some d1"
      and d2: "fst (processWebProjectPath e2 wp pt ap w') = Some d2" by auto
  have same: "d2 = d1" using d2 d1 by (rule processWebProjectPath_same)
  have n: "d1 \<noteq> []" using d1 by (rule processWebProjectPath_nonempty)
  from r1 d1 resolve_project[OF False n, of e1 p m f w]
       r2 d2 same resolve_project[OF False n, of e2 p m f w']
  show ?thesis by simp
qed

text \<open>
  C8, as stated, fails: the same request with an explicit output path, made again later,
  writes to the same path and replaces the first image; with a project base path the two
  requests also resolve to one path.
\<close>

theorem repeat_request_overwrites_counterexample:
  "fst (saveImage env_ok ''https://cdn.example/img'' ''a cat'' ''8000'' ''svg''
          (Some ''out/logo.svg'') None None None world_empty) = Inr ''out/logo.svg'' \<and>
   files (snd (saveImage env_ok ''https://cdn.example/img'' ''a cat'' ''8000'' ''svg''
                 (Some ''out/logo.svg'') None None None world_empty)) ''out/logo.svg'' =
     Some ''<svg/>'' \<and>
   fst (saveImage env_later ''https://cdn.example/img'' ''a cat'' ''8000'' ''svg''
          (Some ''out/logo.svg'') None None None
          (snd (saveImage env_ok ''https://cdn.example/img'' ''a cat'' ''8000'' ''svg''
                  (Some ''out/logo.svg'') None None None world_empty))) = Inr ''out/logo.svg'' \<and>
   files (snd (saveImage env_later ''https://cdn.example/img'' ''a cat'' ''8000'' ''svg''
                 (Some ''out/logo.svg'') None None None
                 (snd (saveImage env_ok ''https://cdn.example/img'' ''a cat'' ''8000'' ''svg''
                         (Some ''out/logo.svg'') None None None world_empty)))) ''out/logo.svg'' =
     Some ''<svg>2</svg>'' \<and>
   fst (saveImage env_ok ''https://cdn.example/img'' ''a cat'' ''8000'' ''svg''
          None (Some ''/site'') (Some ''react'') None world_empty) =
     Inr ''/site/public/images/a_cat_8000.svg'' \<and>
   fst (saveImage env_later ''https://cdn.example/img'' ''a cat'' ''8000'' ''svg''
          None (Some ''/site'') (Some ''react'') None world_empty) =
     Inr ''/site/public/images/a_cat_8000.svg''"
  by code_simp

text \<open>
  C8 (amended). Every request that \<open>saveImage\<close> completes leaves a file at its path, writes
  the data of the request to that path and changes no other file. In the default storage
  directory (no output path, no project base path) the file name starts with the clock
  reading: any two requests for models without a separator, saved by one installation at
  different clock readings, get different paths, so the second leaves the file of the first
  as it was. With an explicit output path or a project base path the path does not depend
  on the clock: a repeat of the request gets the same path, and its write replaces the
  content of the earlier file.
\<close>

theorem stored_files_and_repeat_requests:
  assumes first: "saveImage e1 url1 p1 m1 f1 op1 wp1 pt1 ap1 w = (Inr path1, w1)"
      and second: "saveImage e2 url2 p2 m2 f2 op2 wp2 pt2 ap2 w1 = (Inr path2, w2)"
  shows "files w1 path1 \<noteq> None \<and>
         (\<exists>content w3 data.
            saveImage_prepare e2 url2 p2 m2 (toLowerCase f2) op2 wp2 pt2 ap2 w1 =
              (Inr (path2, content), w3) \<and>
            written_data e2 (toLowerCase f2) content path2 = Some data \<and>
            files w2 = (files w1)(path2 \<mapsto> data)) \<and>
         (\<not> truthy op1 \<and> \<not> truthy op2 \<and>
          fst (processWebProjectPath e1 wp1 pt1 ap1 w) = None \<and>
          fst (processWebProjectPath e2 wp2 pt2 ap2 w1) = None \<and>
          module_dirname e1 = module_dirname e2 \<and>
          iso_shape (now_iso e1) = iso_pattern \<and> iso_shape (now_iso e2) = iso_pattern \<and>
          now_iso e1 \<noteq> now_iso e2 \<and> CHR ''/'' \<notin> set m1 \<and> CHR ''/'' \<notin> set m2 \<longrightarrow>
            path2 \<noteq> path1 \<and> files w2 path1 = files w1 path1) \<and>
         (p2 = p1 \<and> m2 = m1 \<and> f2 = f1 \<and> op2 = op1 \<and> wp2 = wp1 \<and> pt2 = pt1 \<and> ap2 = ap1 \<and>
          (truthy op1 \<or> (fst (processWebProjectPath e1 wp1 pt1 ap1 w) \<noteq> None \<and>
                           fst (processWebProjectPath e2 wp1 pt1 ap1 w1) \<noteq> None)) \<longrightarrow>
            path2 = path1)"
proof -
  from saveImage_success(2)[OF first] obtain c1 x1 d1
    where pr1: "saveImage_prepare e1 url1 p1 m1 (toLowerCase f1) op1 wp1 pt1 ap1 w =
                  (Inr (path1, c1), x1)"
      and fl1: "files w1 = (files w)(path1 \<mapsto> d1)" by auto
  note ex2 = saveImage_success(2)[OF second]
  then obtain c2 x2 d2
    where pr2: "saveImage_prepare e2 url2 p2 m2 (toLowerCase f2) op2 wp2 pt2 ap2 w1 =
                  (Inr (path2, c2), x2)"
      and fl2: "files w2 = (files w1)(path2 \<mapsto> d2)" by auto
  note rp1 = prepare_path[OF pr1] and rp2 = prepare_path[OF pr2]
  note s1 = supported_no_slash[OF saveImage_success(1)[OF first]]
    and s2 = supported_no_slash[OF saveImage_success(1)[OF second]]
  have A: "files w1 path1 \<noteq> None" using fl1 by simp
  have C: "\<not> truthy op1 \<and> \<not> truthy op2 \<and>
          fst (processWebProjectPath e1 wp1 pt1 ap1 w) = None \<and>
          fst (processWebProjectPath e2 wp2 pt2 ap2 w1) = None \<and>
          module_dirname e1 = module_dirname e2 \<and>
          iso_shape (now_iso e1) = iso_pattern \<and> iso_shape (now_iso e2) = iso_pattern \<and>
          now_iso e1 \<noteq> now_iso e2 \<and> CHR ''/'' \<notin> set m1 \<and> CHR ''/'' \<notin> set m2 \<longrightarrow>
            path2 \<noteq> path1 \<and> files w2 path1 = files w1 path1"
  proof
    assume h: "\<not> truthy op1 \<and> \<not> truthy op2 \<and>
          fst (processWebProjectPath e1 wp1 pt1 ap1 w) = None \<and>
          fst (processWebProjectPath e2 wp2 pt2 ap2 w1) = None \<and>
          module_dirname e1 = module_dirname e2 \<and>
          iso_shape (now_iso e1) = iso_pattern \<and> iso_shape (now_iso e2) = iso_pattern \<and>
          now_iso e1 \<noteq> now_iso e2 \<and> CHR ''/'' \<notin> set m1 \<and> CHR ''/'' \<notin> set m2"
    from rp1 h have r1: "fst (resolve_filepath e1 p1 m1 (toLowerCase f1) op1 None w) = Inr path1"
      by simp
    from rp2 h have r2: "fst (resolve_filepath e2 p2 m2 (toLowerCase f2) op2 None w1) = Inr path2"
      by simp
    have ne: "path2 \<noteq> path1"
      using r1 r2 h s1 s2 by (intro default_paths_differ[OF r1 r2]) simp_all
    with fl2 show "path2 \<noteq> path1 \<and> files w2 path1 = files w1 path1" by simp
  qed
  have D: "p2 = p1 \<and> m2 = m1 \<and> f2 = f1 \<and> op2 = op1 \<and> wp2 = wp1 \<and> pt2 = pt1 \<and> ap2 = ap1 \<and>
          (truthy op1 \<or> (fst (processWebProjectPath e1 wp1 pt1 ap1 w) \<noteq> None \<and>
                           fst (processWebProjectPath e2 wp1 pt1 ap1 w1) \<noteq> None)) \<longrightarrow>
            path2 = path1"
  proof
    assume h: "p2 = p1 \<and> m2 = m1 \<and> f2 = f1 \<and> op2 = op1 \<and> wp2 = wp1 \<and> pt2 = pt1 \<and> ap2 = ap1 \<and>
          (truthy op1 \<or> (fst (processWebProjectPath e1 wp1 pt1 ap1 w) \<noteq> None \<and>
                           fst (processWebProjectPath e2 wp1 pt1 ap1 w1) \<noteq> None))"
    from rp2 h
    have r2: "fst (resolve_filepath e2 p1 m1 (toLowerCase f1) op1
                     (fst (processWebProjectPath e2 wp1 pt1 ap1 w1)) w1) = Inr path2" by simp
    from h have ch: "truthy op1 \<or> (fst (processWebProjectPath e1 wp1 pt1 ap1 w) \<noteq> None \<and>
                           fst (processWebProjectPath e2 wp1 pt1 ap1 w1) \<noteq> None)" by simp
    show "path2 = path1" using rp1 r2 ch by (rule chosen_paths_agree)
  qed
  show ?thesis by (rule conjI[OF A conjI[OF ex2 conjI[OF C D]]])
qed

theorem stored_files_and_repeat_requests_witness:
  "fst (saveImage env_ok ''https://cdn.example/img'' ''a cat'' ''5000'' ''png'' None None None
     None world_empty) = Inr ''/app/images/2025-01-02T03-04-05-678Z_5000_a_cat.png'' \<and>
   fst (saveImage env_later ''https://cdn.example/img'' ''a logo'' ''8000'' ''svg'' None None
     None None (snd (saveImage env_ok ''https://cdn.example/img'' ''a cat'' ''5000'' ''png''
     None None None None world_empty))) = Inr
     ''/app/images/2025-01-02T03-04-09-000Z_8000_a_logo.svg'' \<and>
   files (snd (saveImage env_later ''https://cdn.example/img'' ''a logo'' ''8000'' ''svg'' None
     None None None (snd (saveImage env_ok ''https://cdn.example/img'' ''a cat'' ''5000''
     ''png'' None None None None world_empty))))
     ''/app/images/2025-01-02T03-04-05-678Z_5000_a_cat.png'' = files (snd (saveImage env_ok
     ''https://cdn.example/img'' ''a cat'' ''5000'' ''png'' None None None None world_empty))
     ''/app/images/2025-01-02T03-04-05-678Z_5000_a_cat.png'' \<and>
   files (snd (saveImage env_ok ''https://cdn.example/img'' ''a cat'' ''8000'' ''svg'' (Some
     ''out/logo.svg'') None None None world_empty)) ''out/logo.svg'' \<noteq> None \<and>
   files (snd (saveImage env_later ''https://cdn.example/img'' ''a cat'' ''8000'' ''svg'' (Some
     ''out/logo.svg'') None None None (snd (saveImage env_ok ''https://cdn.example/img''
     ''a cat'' ''8000'' ''svg'' (Some ''out/logo.svg'') None None None world_empty)))) = (files
     (snd (saveImage env_ok ''https://cdn.example/img'' ''a cat'' ''8000'' ''svg'' (Some
     ''out/logo.svg'') None None None world_empty)))(''out/logo.svg'' \<mapsto>
     ''<svg>2</svg>'') \<and>
   files (snd (saveImage env_ok ''https://cdn.example/img'' ''a cat'' ''8000'' ''svg'' None
     (Some ''/site'') (Some ''react'') None world_empty)) ''/site/public/images/a_cat_8000.svg''
     \<noteq> None \<and>
   files (snd (saveImage env_later ''https://cdn.example/img'' ''a cat'' ''8000'' ''svg'' None
     (Some ''/site'') (Some ''react'') None (snd (saveImage env_ok ''https://cdn.example/img''
     ''a cat'' ''8000'' ''svg'' None (Some ''/site'') (Some ''react'') None world_empty)))) =
     (files (snd (saveImage env_ok ''https://cdn.example/img'' ''a cat'' ''8000'' ''svg'' None
     (Some ''/site'') (Some ''react'') None
     world_empty)))(''/site/public/images/a_cat_8000.svg'' \<mapsto> ''<svg>2</svg>'')"
proof -
  have fA1: "fst (saveImage env_ok ''https://cdn.example/img'' ''a cat'' ''5000'' ''png'' None
      None None None world_empty) = Inr ''/app/images/2025-01-02T03-04-05-678Z_5000_a_cat.png''"
      by code_simp
  have fA2: "fst (saveImage env_later ''https://cdn.example/img'' ''a logo'' ''8000'' ''svg'' None
      None None None (snd (saveImage env_ok ''https://cdn.example/img'' ''a cat'' ''5000'' ''png''
      None None None None world_empty))) = Inr
      ''/app/images/2025-01-02T03-04-09-000Z_8000_a_logo.svg''" by code_simp
  have hA1: "saveImage env_ok ''https://cdn.example/img'' ''a cat'' ''5000'' ''png'' None None
      None None world_empty = (Inr ''/app/images/2025-01-02T03-04-05-678Z_5000_a_cat.png'', snd
      (saveImage env_ok ''https://cdn.example/img'' ''a cat'' ''5000'' ''png'' None None None None
      world_empty))"
    using fA1 by (simp add: prod_eq_iff)
  have hA2: "saveImage env_later ''https://cdn.example/img'' ''a logo'' ''8000'' ''svg'' None None
      None None (snd (saveImage env_ok ''https://cdn.example/img'' ''a cat'' ''5000'' ''png'' None
      None None None world_empty)) = (Inr
      ''/app/images/2025-01-02T03-04-09-000Z_8000_a_logo.svg'', snd (saveImage env_later
      ''https://cdn.example/img'' ''a logo'' ''8000'' ''svg'' None None None None (snd (saveImage
      env_ok ''https://cdn.example/img'' ''a cat'' ''5000'' ''png'' None None None None
      world_empty))))"
    using fA2 by (simp add: prod_eq_iff)
  note TA = stored_files_and_repeat_requests[OF hA1 hA2]
  have s1: "iso_shape (now_iso env_ok) = iso_pattern" by code_simp
  have s2: "iso_shape (now_iso env_later) = iso_pattern" by code_simp
  have n1: "fst (processWebProjectPath env_ok None None None world_empty) = None" by code_simp
  have n2: "fst (processWebProjectPath env_later None None None (snd (saveImage env_ok
      ''https://cdn.example/img'' ''a cat'' ''5000'' ''png'' None None None None world_empty))) =
      None"
    by (simp add: processWebProjectPath_def)
  have md: "module_dirname env_ok = module_dirname env_later" by (simp add: env_later_def)
  have ne: "now_iso env_ok \<noteq> now_iso env_later" by (simp add: env_later_def env_ok_def)
  have hA: "\<not> truthy None \<and> \<not> truthy None \<and>
            fst (processWebProjectPath env_ok None None None world_empty) = None \<and>
            fst (processWebProjectPath env_later None None None (snd (saveImage env_ok
                ''https://cdn.example/img'' ''a cat'' ''5000'' ''png'' None None None None
                world_empty))) = None \<and>
            module_dirname env_ok = module_dirname env_later \<and>
            iso_shape (now_iso env_ok) = iso_pattern \<and> iso_shape (now_iso env_later) =
                iso_pattern \<and>
            now_iso env_ok \<noteq> now_iso env_later \<and> CHR ''/'' \<notin> set ''5000''
                \<and> CHR ''/'' \<notin> set ''8000''"
    using s1 s2 n1 n2 md ne by simp
  note rA = conjunct2[OF mp[OF conjunct1[OF conjunct2[OF conjunct2[OF TA]]] hA]]
  have fB1: "fst (saveImage env_ok ''https://cdn.example/img'' ''a cat'' ''8000'' ''svg'' (Some
      ''out/logo.svg'') None None None world_empty) = Inr ''out/logo.svg''" by code_simp
  have fB2: "fst (saveImage env_later ''https://cdn.example/img'' ''a cat'' ''8000'' ''svg'' (Some
      ''out/logo.svg'') None None None (snd (saveImage env_ok ''https://cdn.example/img''
      ''a cat'' ''8000'' ''svg'' (Some ''out/logo.svg'') None None None world_empty))) = Inr
      ''out/logo.svg''" by code_simp
  have hB1: "saveImage env_ok ''https://cdn.example/img'' ''a cat'' ''8000'' ''svg'' (Some
      ''out/logo.svg'') None None None world_empty = (Inr ''out/logo.svg'', snd (saveImage env_ok
      ''https://cdn.example/img'' ''a cat'' ''8000'' ''svg'' (Some ''out/logo.svg'') None None
      None world_empty))"
    using fB1 by (simp add: prod_eq_iff)
  have hB2: "saveImage env_later ''https://cdn.example/img'' ''a cat'' ''8000'' ''svg'' (Some
      ''out/logo.svg'') None None None (snd (saveImage env_ok ''https://cdn.example/img''
      ''a cat'' ''8000'' ''svg'' (Some ''out/logo.svg'') None None None world_empty)) = (Inr
      ''out/logo.svg'', snd (saveImage env_later ''https://cdn.example/img'' ''a cat'' ''8000''
      ''svg'' (Some ''out/logo.svg'') None None None (snd (saveImage env_ok
      ''https://cdn.example/img'' ''a cat'' ''8000'' ''svg'' (Some ''out/logo.svg'') None None
      None world_empty))))"
    using fB2 by (simp add: prod_eq_iff)
  note TB = stored_files_and_repeat_requests[OF hB1 hB2]
  have cB: "fst (saveImage_prepare env_later ''https://cdn.example/img'' ''a cat'' ''8000''
      (toLowerCase ''svg'') (Some ''out/logo.svg'') None None None (snd (saveImage env_ok
      ''https://cdn.example/img'' ''a cat'' ''8000'' ''svg'' (Some ''out/logo.svg'') None None
      None world_empty))) = Inr (''out/logo.svg'', ''<svg>2</svg>'')" by code_simp
  have dB: "written_data env_later (toLowerCase ''svg'') ''<svg>2</svg>'' ''out/logo.svg'' = Some
      ''<svg>2</svg>''"
    by code_simp
  from conjunct1[OF conjunct2[OF TB]] obtain contentB xB dataB
    where pB: "saveImage_prepare env_later ''https://cdn.example/img'' ''a cat'' ''8000''
        (toLowerCase ''svg'') (Some ''out/logo.svg'') None None None (snd (saveImage env_ok
        ''https://cdn.example/img'' ''a cat'' ''8000'' ''svg'' (Some ''out/logo.svg'') None None
        None world_empty)) = (Inr (''out/logo.svg'', contentB), xB)"
      and wdB: "written_data env_later (toLowerCase ''svg'') contentB ''out/logo.svg'' = Some dataB"
      and flB: "files (snd (saveImage env_later ''https://cdn.example/img'' ''a cat'' ''8000''
          ''svg'' (Some ''out/logo.svg'') None None None (snd (saveImage env_ok
          ''https://cdn.example/img'' ''a cat'' ''8000'' ''svg'' (Some ''out/logo.svg'') None None
          None world_empty)))) = (files (snd (saveImage env_ok ''https://cdn.example/img''
          ''a cat'' ''8000'' ''svg'' (Some ''out/logo.svg'') None None None
          world_empty)))(''out/logo.svg'' \<mapsto> dataB)"
    by blast
  from cB pB have "contentB = ''<svg>2</svg>''" by simp
  with dB wdB have "dataB = ''<svg>2</svg>''" by simp
  with flB have rB: "files (snd (saveImage env_later ''https://cdn.example/img'' ''a cat''
      ''8000'' ''svg'' (Some ''out/logo.svg'') None None None (snd (saveImage env_ok
      ''https://cdn.example/img'' ''a cat'' ''8000'' ''svg'' (Some ''out/logo.svg'') None None
      None world_empty)))) = (files (snd (saveImage env_ok ''https://cdn.example/img'' ''a cat''
      ''8000'' ''svg'' (Some ''out/logo.svg'') None None None world_empty)))(''out/logo.svg''
      \<mapsto> ''<svg>2</svg>'')"
    by simp
  have hB: "''a cat'' = ''a cat'' \<and> ''8000'' = ''8000'' \<and> ''svg'' = ''svg'' \<and>
            Some ''out/logo.svg'' = Some ''out/logo.svg'' \<and> (None :: string option) = None
                \<and>
            (None :: string option) = None \<and> (None :: string option) = None \<and>
            (truthy (Some ''out/logo.svg'') \<or>
             (fst (processWebProjectPath env_ok None None None world_empty) \<noteq> None \<and>
              fst (processWebProjectPath env_later None None None (snd (saveImage env_ok
                  ''https://cdn.example/img'' ''a cat'' ''8000'' ''svg'' (Some ''out/logo.svg'')
                  None None None world_empty))) \<noteq> None))"
    by simp
  note eB = mp[OF conjunct2[OF conjunct2[OF conjunct2[OF TB]]] hB]
  have fC1: "fst (saveImage env_ok ''https://cdn.example/img'' ''a cat'' ''8000'' ''svg'' None
      (Some ''/site'') (Some ''react'') None world_empty) = Inr
      ''/site/public/images/a_cat_8000.svg''" by code_simp
  have fC2: "fst (saveImage env_later ''https://cdn.example/img'' ''a cat'' ''8000'' ''svg'' None
      (Some ''/site'') (Some ''react'') None (snd (saveImage env_ok ''https://cdn.example/img''
      ''a cat'' ''8000'' ''svg'' None (Some ''/site'') (Some ''react'') None world_empty))) = Inr
      ''/site/public/images/a_cat_8000.svg''" by code_simp
  have hC1: "saveImage env_ok ''https://cdn.example/img'' ''a cat'' ''8000'' ''svg'' None (Some
      ''/site'') (Some ''react'') None world_empty = (Inr ''/site/public/images/a_cat_8000.svg'',
      snd (saveImage env_ok ''https://cdn.example/img'' ''a cat'' ''8000'' ''svg'' None (Some
      ''/site'') (Some ''react'') None world_empty))"
    using fC1 by (simp add: prod_eq_iff)
  have hC2: "saveImage env_later ''https://cdn.example/img'' ''a cat'' ''8000'' ''svg'' None (Some
      ''/site'') (Some ''react'') None (snd (saveImage env_ok ''https://cdn.example/img''
      ''a cat'' ''8000'' ''svg'' None (Some ''/site'') (Some ''react'') None world_empty)) = (Inr
      ''/site/public/images/a_cat_8000.svg'', snd (saveImage env_later ''https://cdn.example/img''
      ''a cat'' ''8000'' ''svg'' None (Some ''/site'') (Some ''react'') None (snd (saveImage
      env_ok ''https://cdn.example/img'' ''a cat'' ''8000'' ''svg'' None (Some ''/site'') (Some
      ''react'') None world_empty))))"
    using fC2 by (simp add: prod_eq_iff)
  note TC = stored_files_and_repeat_requests[OF hC1 hC2]
  have cC: "fst (saveImage_prepare env_later ''https://cdn.example/img'' ''a cat'' ''8000''
      (toLowerCase ''svg'') None (Some ''/site'') (Some ''react'') None (snd (saveImage env_ok
      ''https://cdn.example/img'' ''a cat'' ''8000'' ''svg'' None (Some ''/site'') (Some
      ''react'') None world_empty))) = Inr (''/site/public/images/a_cat_8000.svg'',
      ''<svg>2</svg>'')" by code_simp
  have dC: "written_data env_later (toLowerCase ''svg'') ''<svg>2</svg>''
      ''/site/public/images/a_cat_8000.svg'' = Some ''<svg>2</svg>''"
    by code_simp
  from conjunct1[OF conjunct2[OF TC]] obtain contentC xC dataC
    where pC: "saveImage_prepare env_later ''https://cdn.example/img'' ''a cat'' ''8000''
        (toLowerCase ''svg'') None (Some ''/site'') (Some ''react'') None (snd (saveImage env_ok
        ''https://cdn.example/img'' ''a cat'' ''8000'' ''svg'' None (Some ''/site'') (Some
        ''react'') None world_empty)) = (Inr (''/site/public/images/a_cat_8000.svg'', contentC),
        xC)"
      and wdC: "written_data env_later (toLowerCase ''svg'') contentC
          ''/site/public/images/a_cat_8000.svg'' = Some dataC"
      and flC: "files (snd (saveImage env_later ''https://cdn.example/img'' ''a cat'' ''8000''
          ''svg'' None (Some ''/site'') (Some ''react'') None (snd (saveImage env_ok
          ''https://cdn.example/img'' ''a cat'' ''8000'' ''svg'' None (Some ''/site'') (Some
          ''react'') None world_empty)))) = (files (snd (saveImage env_ok
          ''https://cdn.example/img'' ''a cat'' ''8000'' ''svg'' None (Some ''/site'') (Some
          ''react'') None world_empty)))(''/site/public/images/a_cat_8000.svg'' \<mapsto> dataC)"
    by blast
  from cC pC have "contentC = ''<svg>2</svg>''" by simp
  with dC wdC have "dataC = ''<svg>2</svg>''" by simp
  with flC have rC: "files (snd (saveImage env_later ''https://cdn.example/img'' ''a cat''
      ''8000'' ''svg'' None (Some ''/site'') (Some ''react'') None (snd (saveImage env_ok
      ''https://cdn.example/img'' ''a cat'' ''8000'' ''svg'' None (Some ''/site'') (Some
      ''react'') None world_empty)))) = (files (snd (saveImage env_ok ''https://cdn.example/img''
      ''a cat'' ''8000'' ''svg'' None (Some ''/site'') (Some ''react'') None
      world_empty)))(''/site/public/images/a_cat_8000.svg'' \<mapsto> ''<svg>2</svg>'')"
    by simp
  have k1: "fst (processWebProjectPath env_ok (Some ''/site'') (Some ''react'') None world_empty)
      \<noteq> None"
    by code_simp
  have k2: "fst (processWebProjectPath env_later (Some ''/site'') (Some ''react'') None (snd
      (saveImage env_ok ''https://cdn.example/img'' ''a cat'' ''8000'' ''svg'' None (Some
      ''/site'') (Some ''react'') None world_empty))) \<noteq> None"
    by code_simp
  have hC: "''a cat'' = ''a cat'' \<and> ''8000'' = ''8000'' \<and> ''svg'' = ''svg'' \<and>
            (None :: string option) = None \<and> Some ''/site'' = Some ''/site'' \<and>
            Some ''react'' = Some ''react'' \<and> (None :: string option) = None \<and>
            (truthy None \<or>
             (fst (processWebProjectPath env_ok (Some ''/site'') (Some ''react'') None
                 world_empty) \<noteq> None \<and>
              fst (processWebProjectPath env_later (Some ''/site'') (Some ''react'') None (snd
                  (saveImage env_ok ''https://cdn.example/img'' ''a cat'' ''8000'' ''svg'' None
                  (Some ''/site'') (Some ''react'') None world_empty))) \<noteq> None))"
    using k1 k2 by simp
  note eC = mp[OF conjunct2[OF conjunct2[OF conjunct2[OF TC]]] hC]
  show ?thesis
    by (rule conjI[OF fA1 conjI[OF fA2 conjI[OF rA conjI[OF conjunct1[OF TB] conjI[OF rB
          conjI[OF conjunct1[OF TC] rC]]]]]])
qed

end
